theory Spec2Isabelle
  imports Complex_Main
begin

section \<open>Python strings\<close>

text \<open>
  A Python \<open>str\<close> is modelled as a \<open>string\<close>; one \<open>char\<close> stands for one code point
  below 256, so \<open>length\<close> is Python's \<open>len\<close> on such strings.  \<open>py_isspace\<close> lists the code
  points below 256 that \<open>str.strip()\<close> removes: TAB, LF, VT, FF, CR, FS, GS, RS, US, SPACE,
  NEL and NBSP.
\<close>

definition py_isspace :: "char \<Rightarrow> bool" where
  "py_isspace c = ((of_char c :: nat) \<in> {9, 10, 11, 12, 13, 28, 29, 30, 31, 32, 133, 160})"

definition strip :: "string \<Rightarrow> string" where
  "strip s = rev (dropWhile py_isspace (rev (dropWhile py_isspace s)))"

definition endswith :: "string \<Rightarrow> string \<Rightarrow> bool" where
  "endswith s suf = (length suf \<le> length s \<and> drop (length s - length suf) s = suf)"

definition startswith :: "string \<Rightarrow> string \<Rightarrow> bool" where
  "startswith s pre = (take (length pre) s = pre)"

text \<open>\<open>text.replace("\n", " ")\<close>\<close>

definition replace_newlines :: "string \<Rightarrow> string" where
  "replace_newlines s = map (\<lambda>c. if c = CHR 0x0A then CHR '' '' else c) s"

text \<open>\<open>url.split('/')[-1]\<close>: what follows the last slash (the whole string without one).\<close>

definition last_segment :: "string \<Rightarrow> string" where
  "last_segment url = rev (takeWhile (\<lambda>c. c \<noteq> CHR ''/'') (rev url))"

text \<open>\<open>str(n)\<close> for the integers of the f-strings.\<close>

definition digit_char :: "nat \<Rightarrow> char" where
  "digit_char d = char_of (48 + d)"

function str_nat :: "nat \<Rightarrow> string" where
  "str_nat n = (if n < 10 then [digit_char n] else str_nat (n div 10) @ [digit_char (n mod 10)])"
  by pat_completeness auto
termination
  by (relation "measure (\<lambda>n. n)") auto

definition str_int :: "int \<Rightarrow> string" where
  "str_int i = (if i < 0 then CHR ''-'' # str_nat (nat (- i)) else str_nat (nat i))"

section \<open>Data\<close>

text \<open>
  An instance of a subclass of \<open>Exception\<close> with its \<open>str(e)\<close>.  Exceptions outside
  \<open>Exception\<close> (interrupts, task cancellation) are not modelled.
\<close>

datatype exn = Exception string

fun str_exn :: "exn \<Rightarrow> string" where
  "str_exn (Exception m) = m"

type_synonym vector = "real list"

text \<open>One row of the scraped frame: the columns \<open>date\<close>, \<open>title\<close>, \<open>type\<close>, \<open>links\<close>.\<close>

record announcement =
  a_date :: string
  a_title :: string
  a_type :: string
  a_links :: "string list"

text \<open>
  One cell of the site's table as the parser reads it: its text nodes and the \<open>href\<close>s
  of its anchors.  The page: the table \<open>filta\<close> when there is one, as rows of cells.
\<close>

record td =
  td_strings :: "string list"
  td_hrefs :: "string list"

type_synonym html = "td list list option"

text \<open>
  The OCR response.  A key that the code reads with \<open>.get(key, default)\<close> is an option,
  \<open>None\<close> when the key is absent; values that are present have the type of section 6 of
  the specification.  Keys the code never reads are left out.
\<close>

record ocr_page =
  pg_index :: "int option"
  pg_markdown :: "string option"
  pg_header :: "string option"
  pg_footer :: "string option"
  pg_dimensions :: "string option"
  pg_tables :: "string list option"
  pg_images :: "string list option"
  pg_hyperlinks :: "string list option"

record ocr_doc =
  od_pages :: "ocr_page list option"
  od_extractedText :: "string option"
  od_model :: "string option"

datatype ocr_json = JDoc ocr_doc | JList "ocr_doc list"

text \<open>The dictionaries built by \<open>process_new_document\<close> and \<open>store_document_pages\<close>.\<close>

record page_data =
  pd_page_number :: int
  pd_content :: string
  pd_original_text :: string
  pd_page_info :: ocr_page

record source_metadata =
  sm_scraped_date :: string
  sm_scraped_title :: string
  sm_scraped_type :: string
  sm_source :: string
  sm_source_url :: string
  sm_scraped_at :: string

record metadata =
  md_date :: string
  md_title :: string
  md_type :: string
  md_page_number :: int
  md_total_pages :: nat
  md_model :: string
  md_header :: string
  md_footer :: string
  md_dimensions :: string
  md_tables_count :: nat
  md_images_count :: nat
  md_hyperlinks_count :: nat
  md_processed_at :: string

record row =
  r_date :: string
  r_title :: string
  r_type :: string
  r_pdf_url :: string
  r_page_number :: int
  r_content :: string
  r_original_text :: string
  r_source_metadata :: source_metadata
  r_metadata :: metadata
  r_embedding :: vector

text \<open>The global \<open>cron_status\<close> and the response models.\<close>

record cron_status =
  cs_last_run :: "string option"
  cs_status :: string
  cs_new_documents :: int
  cs_processed :: int
  cs_failed :: int
  cs_message :: string

record cron_response =
  cr_status :: string
  cr_message :: string
  cr_job_id :: "string option"

datatype http_exception = HTTPException nat string

datatype task = Run_daily_scrape

section \<open>The world outside the process\<close>

text \<open>
  Every call that leaves the process is an event of the trace, in the order of the calls.
  The world holds the files of the download directory, the rows of the table
  \<open>bnm_announcements\<close> and the trace.
\<close>

datatype event =
    Browse
  | Select string string
  | Download string
  | Unlink string
  | OcrPost string
  | EmbedCreate "string list"
  | Insert row
  | Print string
  | Sleep nat
  | Now

record world =
  files :: "string set"
  table :: "row list"
  trace :: "event list"

text \<open>
  The collaborators.  Each answer may depend on the whole world, the trace included, so a
  collaborator may fail once and answer later.
  \<^item> \<open>browse\<close>: the browser session on the site; it raises, or gives the rendered page.
  \<^item> \<open>launch\<close>: the start of the browser session of a download (download directory, browser,
    context, page); it may raise, which the outer handler of \<open>download_pdf\<close> catches.
  \<^item> \<open>fetch\<close>: the browser download of a URL; it raises (navigation, timeout, saving), or
    the payload is saved and has the given size in bytes.
  \<^item> \<open>ocr_post\<close>: the upload to the OCR webhook with \<open>raise_for_status\<close> and \<open>json()\<close>.
  \<^item> \<open>embeddings_create\<close>: the embedding provider on the cleaned texts.
  \<^item> \<open>select_exec\<close>, \<open>insert_exec\<close>: whether the storage call raises.
  \<^item> \<open>clock\<close>: the ISO string of the current time.
\<close>

record env =
  browse :: "world \<Rightarrow> exn + html"
  launch :: "world \<Rightarrow> exn option"
  fetch :: "world \<Rightarrow> string \<Rightarrow> exn + nat"
  ocr_post :: "world \<Rightarrow> string \<Rightarrow> exn + ocr_json"
  embeddings_create :: "world \<Rightarrow> string list \<Rightarrow> exn + vector list"
  select_exec :: "world \<Rightarrow> string \<Rightarrow> string \<Rightarrow> exn option"
  insert_exec :: "world \<Rightarrow> row \<Rightarrow> exn option"
  clock :: "world \<Rightarrow> string"

definition emit :: "event \<Rightarrow> world \<Rightarrow> world" where
  "emit e w = w\<lparr>trace := trace w @ [e]\<rparr>"

text \<open>\<open>datetime.now().isoformat()\<close> and \<open>datetime.utcnow().isoformat()\<close>.\<close>

definition now_iso :: "env \<Rightarrow> world \<Rightarrow> string \<times> world" where
  "now_iso env w = (let w1 = emit Now w in (clock env w1, w1))"

text \<open>The text of a path or a type name in single quotes, as Python prints it in a message.\<close>

definition repr_str :: "string \<Rightarrow> string" where
  "repr_str s = [CHR 0x27] @ s @ [CHR 0x27]"

text \<open>\<open>Path.unlink()\<close>: it raises when the file is missing.\<close>

definition unlink :: "string \<Rightarrow> world \<Rightarrow> exn + world" where
  "unlink p w =
     (if p \<in> files w then Inr (emit (Unlink p) (w\<lparr>files := files w - {p}\<rparr>))
      else Inl (Exception (''[Errno 2] No such file or directory: '' @ repr_str p)))"

section \<open>Configuration\<close>

definition BATCH_EMBEDDING_SIZE :: nat where
  "BATCH_EMBEDDING_SIZE = 10"

definition DOWNLOAD_DIR :: string where
  "DOWNLOAD_DIR = ''temp_bnm_downloads''"

definition SITE_ORIGIN :: string where
  "SITE_ORIGIN = ''https://www.bnm.gov.my''"

section \<open>Announcement Lister: \<open>scrape_bnm_announcements\<close>\<close>

fun join :: "string \<Rightarrow> string list \<Rightarrow> string" where
  "join sep [] = []"
| "join sep [x] = x"
| "join sep (x # y # ys) = x @ sep @ join sep (y # ys)"

text \<open>\<open>get_text(sep, strip=True)\<close>: the stripped, non-empty text nodes joined by \<open>sep\<close>.\<close>

definition get_text :: "string \<Rightarrow> td \<Rightarrow> string" where
  "get_text sep c = join sep (filter (\<lambda>s. s \<noteq> []) (map strip (td_strings c)))"

definition normalize_href :: "string \<Rightarrow> string" where
  "normalize_href href = (if startswith href ''http'' then href else SITE_ORIGIN @ href)"

text \<open>The dictionary of one table row; \<open>tds[k]\<close> raises \<open>IndexError\<close> on a short row.\<close>

definition parse_row :: "td list \<Rightarrow> exn + announcement" where
  "parse_row tds =
     (if length tds < 3 then Inl (Exception ''list index out of range'')
      else Inr \<lparr>a_date = get_text [] (tds ! 0),
                a_title = get_text '' '' (tds ! 1),
                a_type = get_text [] (tds ! 2),
                a_links = map normalize_href (td_hrefs (tds ! 1))\<rparr>)"

fun parse_rows :: "td list list \<Rightarrow> announcement list \<Rightarrow> exn + announcement list" where
  "parse_rows [] rows = Inr rows"
| "parse_rows (tr # trs) rows =
     (case parse_row tr of
        Inl e \<Rightarrow> Inl e
      | Inr r \<Rightarrow> parse_rows trs (rows @ [r]))"

text \<open>The body of the \<open>try\<close> block, then the function with its handler.\<close>

definition scrape_body :: "env \<Rightarrow> world \<Rightarrow> (exn + announcement list) \<times> world" where
  "scrape_body env w =
     (let w1 = emit Browse w in
      case browse env w1 of
        Inl e \<Rightarrow> (Inl e, w1)
      | Inr None \<Rightarrow>
          (Inl (Exception (repr_str ''NoneType'' @ '' object has no attribute ''
                            @ repr_str ''select'')), w1)
      | Inr (Some trs) \<Rightarrow> (parse_rows trs [], w1))"

definition scrape_bnm_announcements :: "env \<Rightarrow> world \<Rightarrow> announcement list \<times> world" where
  "scrape_bnm_announcements env w =
     (case scrape_body env w of
        (Inl e, w1) \<Rightarrow> ([], emit (Print (''[ERROR] Scraping failed: '' @ str_exn e)) w1)
      | (Inr rows, w1) \<Rightarrow> (rows, w1))"

section \<open>Existence Oracle and Page Store: \<open>storage.py\<close>\<close>

text \<open>
  The table answers \<open>select("id").eq("title", title).eq("date", date).limit(1)\<close> with at
  most one of its rows of that title and date, unless the call raises.
\<close>

definition select_data :: "world \<Rightarrow> string \<Rightarrow> string \<Rightarrow> row list" where
  "select_data w title date = take 1 (filter (\<lambda>r. r_title r = title \<and> r_date r = date) (table w))"

definition check_document_exists :: "env \<Rightarrow> string \<Rightarrow> string \<Rightarrow> world \<Rightarrow> bool \<times> world" where
  "check_document_exists env title date w =
     (let w1 = emit (Select title date) w in
      case select_exec env w1 title date of
        Some e \<Rightarrow> (False, w1)
      | None \<Rightarrow> (length (select_data w1 title date) > 0, w1))"

definition get_default :: "'a option \<Rightarrow> 'a \<Rightarrow> 'a" where
  "get_default v d = (case v of None \<Rightarrow> d | Some x \<Rightarrow> x)"

definition make_row ::
  "string \<Rightarrow> string \<Rightarrow> string \<Rightarrow> string \<Rightarrow> nat \<Rightarrow> ocr_doc \<Rightarrow> page_data \<Rightarrow> vector
     \<Rightarrow> string \<Rightarrow> string \<Rightarrow> row" where
  "make_row date title doc_type pdf_url total_pages ocr_data page_data embedding scraped_at processed_at =
     \<lparr>r_date = date, r_title = title, r_type = doc_type, r_pdf_url = pdf_url,
      r_page_number = pd_page_number page_data,
      r_content = pd_content page_data,
      r_original_text = pd_original_text page_data,
      r_source_metadata =
        \<lparr>sm_scraped_date = date, sm_scraped_title = title, sm_scraped_type = doc_type,
         sm_source = ''BNM Website - FastAPI Cron'',
         sm_source_url = ''https://www.bnm.gov.my/banking-islamic-banking'',
         sm_scraped_at = scraped_at\<rparr>,
      r_metadata =
        \<lparr>md_date = date, md_title = title, md_type = doc_type,
         md_page_number = pd_page_number page_data,
         md_total_pages = total_pages,
         md_model = get_default (od_model ocr_data) ''mistral-ocr'',
         md_header = get_default (pg_header (pd_page_info page_data)) [],
         md_footer = get_default (pg_footer (pd_page_info page_data)) [],
         md_dimensions = get_default (pg_dimensions (pd_page_info page_data)) ''{}'',
         md_tables_count = length (get_default (pg_tables (pd_page_info page_data)) []),
         md_images_count = length (get_default (pg_images (pd_page_info page_data)) []),
         md_hyperlinks_count = length (get_default (pg_hyperlinks (pd_page_info page_data)) []),
         md_processed_at = processed_at\<rparr>,
      r_embedding = embedding\<rparr>"

text \<open>
  The loop over \<open>zip(pages_data, embeddings)\<close>: one \<open>try\<close> block for each pair, whose
  handler prints and goes on.
\<close>

fun store_loop ::
  "env \<Rightarrow> string \<Rightarrow> string \<Rightarrow> string \<Rightarrow> string \<Rightarrow> nat \<Rightarrow> ocr_doc
     \<Rightarrow> (page_data \<times> vector) list \<Rightarrow> nat \<Rightarrow> world \<Rightarrow> nat \<times> world" where
  "store_loop env date title doc_type pdf_url total_pages ocr_data [] pages_stored w = (pages_stored, w)"
| "store_loop env date title doc_type pdf_url total_pages ocr_data ((page_data, embedding) # rest) pages_stored w =
     (case now_iso env w of (scraped_at, w1) \<Rightarrow>
       (case now_iso env w1 of (processed_at, w2) \<Rightarrow>
         (let data = make_row date title doc_type pdf_url total_pages ocr_data page_data embedding
                       scraped_at processed_at;
              w3 = emit (Insert data) w2
          in (case insert_exec env w3 data of
                None \<Rightarrow>
                  store_loop env date title doc_type pdf_url total_pages ocr_data rest
                    (pages_stored + 1) (w3\<lparr>table := table w3 @ [data]\<rparr>)
              | Some e \<Rightarrow>
                  store_loop env date title doc_type pdf_url total_pages ocr_data rest pages_stored
                    (emit (Print (''[ERROR] Failed to store page ''
                                   @ str_int (pd_page_number page_data) @ '': '' @ str_exn e)) w3)))))"

definition store_document_pages ::
  "env \<Rightarrow> string \<Rightarrow> string \<Rightarrow> string \<Rightarrow> string \<Rightarrow> page_data list \<Rightarrow> vector list \<Rightarrow> ocr_doc
     \<Rightarrow> world \<Rightarrow> nat \<times> world" where
  "store_document_pages env date title doc_type pdf_url pages_data embeddings ocr_data w =
     store_loop env date title doc_type pdf_url (length pages_data) ocr_data
       (zip pages_data embeddings) 0 w"

section \<open>Attachment Fetcher: \<open>download_pdf\<close>\<close>

text \<open>
  The outer handler catches what the start of the browser session raises, the inner one
  what the download raises.
\<close>

definition download_pdf :: "env \<Rightarrow> string \<Rightarrow> world \<Rightarrow> string option \<times> world" where
  "download_pdf env url w =
     (let w1 = emit (Download url) w in
      case launch env w1 of
        Some e \<Rightarrow> (None, emit (Print (''[ERROR] PDF handler error: '' @ str_exn e)) w1)
      | None \<Rightarrow>
          (case fetch env w1 url of
             Inl e \<Rightarrow> (None, emit (Print (''[ERROR] Download failed: '' @ str_exn e)) w1)
           | Inr st_size \<Rightarrow>
               (let filename = last_segment url;
                    filename = (if \<not> endswith filename ''.pdf'' then filename @ ''.pdf''
                                else filename);
                    filepath = DOWNLOAD_DIR @ ''/'' @ filename;
                    w2 = w1\<lparr>files := insert filepath (files w1)\<rparr>
                in if st_size < 1000 then
                     (case unlink filepath w2 of
                        Inl e \<Rightarrow>
                          (None, emit (Print (''[ERROR] Download failed: '' @ str_exn e)) w2)
                      | Inr w3 \<Rightarrow> (None, w3))
                   else (Some filepath, w2))))"

section \<open>Text Extractor: \<open>extract_text_from_pdf\<close>\<close>

text \<open>A list response that is not empty stands for its first element.\<close>

fun unwrap :: "ocr_json \<Rightarrow> ocr_json" where
  "unwrap (JList (d # ds)) = JDoc d"
| "unwrap j = j"

definition extract_text_from_pdf :: "env \<Rightarrow> string \<Rightarrow> world \<Rightarrow> ocr_json option \<times> world" where
  "extract_text_from_pdf env pdf_path w =
     (if pdf_path \<notin> files w then
        (None, emit (Print (''[ERROR] OCR extraction failed: [Errno 2] No such file or directory: ''
                             @ repr_str pdf_path)) w)
      else
        (let w1 = emit (OcrPost pdf_path) w in
         case ocr_post env w1 pdf_path of
           Inl e \<Rightarrow> (None, emit (Print (''[ERROR] OCR extraction failed: '' @ str_exn e)) w1)
         | Inr ocr_data \<Rightarrow> (Some (unwrap ocr_data), w1)))"

section \<open>Embedding Generator: \<open>generate_embeddings_batch\<close>\<close>

definition clean_text :: "string \<Rightarrow> string" where
  "clean_text text =
     (let cleaned = strip (replace_newlines text)
      in if length cleaned > 8000 then take 8000 cleaned else cleaned)"

text \<open>The function has no handler: what the provider raises, the function raises.\<close>

definition generate_embeddings_batch ::
  "env \<Rightarrow> string list \<Rightarrow> world \<Rightarrow> (exn + vector list) \<times> world" where
  "generate_embeddings_batch env texts w =
     (let cleaned_texts = map clean_text texts;
          w1 = emit (EmbedCreate cleaned_texts) w
      in (embeddings_create env w1 cleaned_texts, w1))"

section \<open>Document Processor: \<open>process_new_document\<close>\<close>

text \<open>
  \<open>not ocr_data\<close> holds for \<open>None\<close>, for the empty list and for the empty dictionary.
\<close>

fun truthy :: "ocr_json option \<Rightarrow> bool" where
  "truthy None = False"
| "truthy (Some (JList ds)) = (ds \<noteq> [])"
| "truthy (Some (JDoc d)) = (d \<noteq> \<lparr>od_pages = None, od_extractedText = None, od_model = None\<rparr>)"

text \<open>The loop that prepares the page data: a page is skipped or appended.\<close>

fun prepare_pages :: "ocr_doc \<Rightarrow> ocr_page list \<Rightarrow> page_data list \<Rightarrow> page_data list" where
  "prepare_pages ocr_data [] page_data_list = page_data_list"
| "prepare_pages ocr_data (page # pages) page_data_list =
     (let page_number = get_default (pg_index page) 0 + 1;
          markdown_content = get_default (pg_markdown page) []
      in if markdown_content = [] \<or> length (strip markdown_content) < 50
         then prepare_pages ocr_data pages page_data_list
         else prepare_pages ocr_data pages
                (page_data_list @
                   [\<lparr>pd_page_number = page_number,
                     pd_content = markdown_content,
                     pd_original_text = get_default (od_extractedText ocr_data) [],
                     pd_page_info = page\<rparr>]))"

text \<open>
  The loop \<open>for i in range(0, len(page_data_list), BATCH_EMBEDDING_SIZE)\<close>.  An exception of
  \<open>generate_embeddings_batch\<close> leaves the loop.
\<close>

function embed_batches ::
  "env \<Rightarrow> page_data list \<Rightarrow> nat \<Rightarrow> vector list \<Rightarrow> world \<Rightarrow> (exn + vector list) \<times> world" where
  "embed_batches env page_data_list i all_embeddings w =
     (if i < length page_data_list then
        (let batch = take BATCH_EMBEDDING_SIZE (drop i page_data_list);
             texts = map pd_content batch
         in (case generate_embeddings_batch env texts w of
               (Inl e, w1) \<Rightarrow> (Inl e, w1)
             | (Inr embeddings, w1) \<Rightarrow>
                 embed_batches env page_data_list (i + BATCH_EMBEDDING_SIZE)
                   (all_embeddings @ embeddings) w1))
      else (Inr all_embeddings, w))"
  by pat_completeness auto
termination
  by (relation "measure (\<lambda>(env, page_data_list, i, all_embeddings, w). length page_data_list - i)")
     (auto simp: BATCH_EMBEDDING_SIZE_def)

text \<open>\<open>pdf_path.unlink()\<close> followed by \<open>return result\<close>.\<close>

definition unlink_return :: "string \<Rightarrow> bool \<Rightarrow> world \<Rightarrow> (exn + bool) \<times> world" where
  "unlink_return pdf_path result w =
     (case unlink pdf_path w of
        Inl e \<Rightarrow> (Inl e, w)
      | Inr w1 \<Rightarrow> (Inr result, w1))"

text \<open>
  The body of the \<open>try\<close> block of \<open>process_new_document\<close>: \<open>Inl\<close> is an exception that
  reaches the handler, \<open>Inr\<close> a returned value.
\<close>

definition process_body ::
  "env \<Rightarrow> string \<Rightarrow> string \<Rightarrow> string \<Rightarrow> string \<Rightarrow> world \<Rightarrow> (exn + bool) \<times> world" where
  "process_body env date title doc_type pdf_url w =
     (case download_pdf env pdf_url w of
        (None, w1) \<Rightarrow> (Inr False, w1)
      | (Some pdf_path, w1) \<Rightarrow>
          (case extract_text_from_pdf env pdf_path w1 of
             (ocr_data, w2) \<Rightarrow>
               (if \<not> truthy ocr_data then unlink_return pdf_path False w2
                else
                  (case ocr_data of
                     Some (JDoc d) \<Rightarrow>
                       (let pages = get_default (od_pages d) [];
                            page_data_list = prepare_pages d pages []
                        in if page_data_list = [] then unlink_return pdf_path False w2
                           else
                             (case embed_batches env page_data_list 0 [] w2 of
                                (Inl e, w3) \<Rightarrow> (Inl e, w3)
                              | (Inr all_embeddings, w3) \<Rightarrow>
                                  (case store_document_pages env date title doc_type pdf_url
                                          page_data_list all_embeddings d w3 of
                                     (pages_stored, w4) \<Rightarrow>
                                       unlink_return pdf_path (pages_stored > 0) w4)))
                   | _ \<Rightarrow>
                       (Inl (Exception (repr_str ''list'' @ '' object has no attribute ''
                                         @ repr_str ''get'')), w2)))))"

definition process_new_document ::
  "env \<Rightarrow> string \<Rightarrow> string \<Rightarrow> string \<Rightarrow> string \<Rightarrow> world \<Rightarrow> bool \<times> world" where
  "process_new_document env date title doc_type pdf_url w =
     (case process_body env date title doc_type pdf_url w of
        (Inl e, w1) \<Rightarrow> (False, emit (Print (''[ERROR] Processing failed: '' @ str_exn e)) w1)
      | (Inr result, w1) \<Rightarrow> (result, w1))"

section \<open>Run Coordinator: \<open>run_daily_scrape\<close>\<close>

text \<open>A work item: the tuple \<open>(date, title, doc_type, pdf_url)\<close> of \<open>new_docs\<close>.\<close>

type_synonym work_item = "string \<times> string \<times> string \<times> string"

text \<open>The loop over the rows of the frame.\<close>

fun scan_rows ::
  "env \<Rightarrow> announcement list \<Rightarrow> cron_status \<Rightarrow> work_item list \<Rightarrow> world
     \<Rightarrow> cron_status \<times> work_item list \<times> world" where
  "scan_rows env [] st new_docs w = (st, new_docs, w)"
| "scan_rows env (r # df) st new_docs w =
     (case check_document_exists env (a_title r) (a_date r) w of
        (True, w1) \<Rightarrow> scan_rows env df st new_docs w1
      | (False, w1) \<Rightarrow>
          (let st1 = st\<lparr>cs_new_documents := cs_new_documents st + 1\<rparr>;
               pdf_links = filter (\<lambda>link. endswith link ''.pdf'') (a_links r)
           in scan_rows env df st1
                (new_docs @ map (\<lambda>pdf_url. (a_date r, a_title r, a_type r, pdf_url)) pdf_links) w1))"

text \<open>
  The loop over \<open>new_docs\<close>.  \<open>process_new_document\<close> returns on every path of the model,
  so the handler inside the loop and the handler around the whole run have nothing to
  catch; the status \<open>error\<close> is not reached.
\<close>

fun process_docs :: "env \<Rightarrow> work_item list \<Rightarrow> cron_status \<Rightarrow> world \<Rightarrow> cron_status \<times> world" where
  "process_docs env [] st w = (st, w)"
| "process_docs env ((date, title, doc_type, pdf_url) # new_docs) st w =
     (case process_new_document env date title doc_type pdf_url w of
        (success, w1) \<Rightarrow>
          (let st1 = (if success then st\<lparr>cs_processed := cs_processed st + 1\<rparr>
                      else st\<lparr>cs_failed := cs_failed st + 1\<rparr>)
           in process_docs env new_docs st1 (emit (Sleep 2) w1)))"

definition run_daily_scrape :: "env \<Rightarrow> cron_status \<Rightarrow> world \<Rightarrow> cron_status \<times> world" where
  "run_daily_scrape env st w =
     (case now_iso env w of
        (t, w1) \<Rightarrow>
          (let st1 = st\<lparr>cs_status := ''running'', cs_last_run := Some t, cs_new_documents := 0,
                        cs_processed := 0, cs_failed := 0\<rparr>
           in (case scrape_bnm_announcements env w1 of
                 (df, w2) \<Rightarrow>
                   (if df = [] then
                      (st1\<lparr>cs_status := ''completed'',
                           cs_message := ''No data scraped from BNM website''\<rparr>, w2)
                    else
                      (case scan_rows env df st1 [] w2 of
                         (st2, new_docs, w3) \<Rightarrow>
                           (case process_docs env new_docs st2 w3 of
                              (st3, w4) \<Rightarrow>
                                (st3\<lparr>cs_status := ''completed'',
                                     cs_message := ''Processed '' @ str_int (cs_processed st3)
                                       @ '' new documents, '' @ str_int (cs_failed st3)
                                       @ '' failed''\<rparr>, w4)))))))"

section \<open>Trigger API and Status API\<close>

definition initial_cron_status :: cron_status where
  "initial_cron_status =
     \<lparr>cs_last_run = None, cs_status = ''idle'', cs_new_documents = 0, cs_processed = 0,
      cs_failed = 0, cs_message = ''Not run yet''\<rparr>"

text \<open>
  The handler has the status, the background tasks of the request and the world; it
  raises the HTTP exception or returns the response.
\<close>

definition trigger_bnm_scrape ::
  "env \<Rightarrow> cron_status \<Rightarrow> task list \<Rightarrow> world
     \<Rightarrow> (http_exception + cron_response) \<times> cron_status \<times> task list \<times> world" where
  "trigger_bnm_scrape env st background_tasks w =
     (if cs_status st = ''running'' then
        (Inl (HTTPException 409 ''Cron job already running''), st, background_tasks, w)
      else
        (case now_iso env w of
           (t, w1) \<Rightarrow>
             (Inr \<lparr>cr_status = ''started'',
                   cr_message = ''BNM scraping job started in background'',
                   cr_job_id = Some t\<rparr>,
              st, background_tasks @ [Run_daily_scrape], w1)))"

definition get_cron_status :: "cron_status \<Rightarrow> cron_status" where
  "get_cron_status st = st"

section \<open>Reading the trace\<close>

text \<open>The calls of one kind in a trace, in order.\<close>

definition inserts :: "event list \<Rightarrow> row list" where
  "inserts tr = concat (map (\<lambda>e. case e of Insert r \<Rightarrow> [r] | _ \<Rightarrow> []) tr)"

definition unlinks :: "event list \<Rightarrow> string list" where
  "unlinks tr = concat (map (\<lambda>e. case e of Unlink p \<Rightarrow> [p] | _ \<Rightarrow> []) tr)"

definition downloads :: "event list \<Rightarrow> string list" where
  "downloads tr = concat (map (\<lambda>e. case e of Download u \<Rightarrow> [u] | _ \<Rightarrow> []) tr)"

definition selects :: "event list \<Rightarrow> (string \<times> string) list" where
  "selects tr = concat (map (\<lambda>e. case e of Select t d \<Rightarrow> [(t, d)] | _ \<Rightarrow> []) tr)"

definition embed_calls :: "event list \<Rightarrow> string list list" where
  "embed_calls tr = concat (map (\<lambda>e. case e of EmbedCreate ts \<Rightarrow> [ts] | _ \<Rightarrow> []) tr)"

definition prints :: "event list \<Rightarrow> string list" where
  "prints tr = concat (map (\<lambda>e. case e of Print m \<Rightarrow> [m] | _ \<Rightarrow> []) tr)"

section \<open>The words of the specification\<close>

text \<open>
  A page is retained when its markdown content is not empty and the trimmed content has
  at least 50 characters.
\<close>

definition retained :: "ocr_page \<Rightarrow> bool" where
  "retained page =
     (get_default (pg_markdown page) [] \<noteq> []
      \<and> 50 \<le> length (strip (get_default (pg_markdown page) [])))"

text \<open>The consecutive chunks of a list, of a fixed size (the last one may be shorter).\<close>

function chunks :: "nat \<Rightarrow> 'a list \<Rightarrow> 'a list list" where
  "chunks n xs = (if n = 0 \<or> xs = [] then [] else take n xs # chunks n (drop n xs))"
  by pat_completeness auto
termination
  by (relation "measure (\<lambda>(n, xs). length xs)") auto

text \<open>The work items of an announcement: one for each link that ends in \<open>.pdf\<close>.\<close>

definition expand :: "announcement \<Rightarrow> work_item list" where
  "expand r =
     map (\<lambda>pdf_url. (a_date r, a_title r, a_type r, pdf_url))
       (filter (\<lambda>link. endswith link ''.pdf'') (a_links r))"

text \<open>
  What the Existence Oracle reports for each announcement of the catalog, asked in order
  from a given world.
\<close>

fun oracle_answers :: "env \<Rightarrow> announcement list \<Rightarrow> world \<Rightarrow> bool list" where
  "oracle_answers env [] w = []"
| "oracle_answers env (r # df) w =
     (case check_document_exists env (a_title r) (a_date r) w of
        (found, w1) \<Rightarrow> found # oracle_answers env df w1)"

text \<open>The storage holds a page of an announcement.\<close>

definition stored :: "world \<Rightarrow> announcement \<Rightarrow> bool" where
  "stored w r = (\<exists>x \<in> set (table w). r_title x = a_title r \<and> r_date x = a_date r)"

section \<open>Example inputs\<close>

text \<open>
  A page of 50 letters, one of 49 and one of 51; an OCR document of given pages; a site
  whose table lists one announcement with the given links in its title cell.
\<close>

definition page_of :: "int \<Rightarrow> nat \<Rightarrow> ocr_page" where
  "page_of i n =
     \<lparr>pg_index = Some i, pg_markdown = Some (replicate n CHR ''a''), pg_header = None,
      pg_footer = None, pg_dimensions = None, pg_tables = None, pg_images = None,
      pg_hyperlinks = None\<rparr>"

definition doc_of :: "ocr_page list \<Rightarrow> ocr_doc" where
  "doc_of pages =
     \<lparr>od_pages = Some pages, od_extractedText = Some ''text'', od_model = Some ''mistral-ocr''\<rparr>"

definition site_of :: "string list \<Rightarrow> html" where
  "site_of hrefs =
     Some [[\<lparr>td_strings = [''1 Jan 2024''], td_hrefs = []\<rparr>,
            \<lparr>td_strings = [''Policy Document''], td_hrefs = hrefs\<rparr>,
            \<lparr>td_strings = [''Notice''], td_hrefs = []\<rparr>]]"

text \<open>
  Collaborators that answer at once: the site lists \<open>site_of hrefs\<close>, every download has
  2048 bytes, the OCR gives \<open>doc_of pages\<close>, the embedding of a text is its length (or the
  provider is down), every query answers, and an insert succeeds where \<open>insert_ok\<close> holds.
\<close>

definition example_env :: "string list \<Rightarrow> ocr_page list \<Rightarrow> bool \<Rightarrow> (row \<Rightarrow> bool) \<Rightarrow> env" where
  "example_env hrefs pages embed_up insert_ok =
     \<lparr>browse = (\<lambda>w. Inr (site_of hrefs)),
      launch = (\<lambda>w. None),
      fetch = (\<lambda>w url. Inr 2048),
      ocr_post = (\<lambda>w p. Inr (JDoc (doc_of pages))),
      embeddings_create =
        (\<lambda>w ts. if embed_up then Inr (map (\<lambda>t. [real (length t)]) ts)
                 else Inl (Exception ''Connection error.'')),
      select_exec = (\<lambda>w t d. None),
      insert_exec = (\<lambda>w r. if insert_ok r then None else Some (Exception ''insert failed'')),
      clock = (\<lambda>w. ''2024-01-01T00:00:00'')\<rparr>"

definition empty_world :: world where
  "empty_world = \<lparr>files = {}, table = [], trace = []\<rparr>"

definition three_pages :: "ocr_page list" where
  "three_pages = [page_of 0 50, page_of 1 50, page_of 2 50]"

definition mixed_pages :: "ocr_page list" where
  "mixed_pages = [page_of 0 50, page_of 1 49, page_of 2 51]"

definition announcement_of :: "string list \<Rightarrow> announcement" where
  "announcement_of links =
     \<lparr>a_date = ''1 Jan 2024'', a_title = ''Policy Document'', a_type = ''Notice'',
      a_links = links\<rparr>"



section \<open>Strings\<close>

lemma strip_id:
  assumes "s \<noteq> []" "\<not> py_isspace (hd s)" "\<not> py_isspace (last s)"
  shows "strip s = s"
proof -
  have a: "dropWhile py_isspace s = s"
    using assms by (simp add: dropWhile_eq_self_iff)
  have b: "dropWhile py_isspace (rev s) = rev s"
    using assms by (simp add: dropWhile_eq_self_iff hd_rev)
  show ?thesis by (simp add: strip_def a b)
qed

lemma not_space_a: "\<not> py_isspace CHR ''a''"
  by (simp add: py_isspace_def)

lemma strip_replicate_a: "strip (replicate n CHR ''a'') = replicate n CHR ''a''"
proof (cases n)
  case 0
  then show ?thesis by (simp add: strip_def)
next
  case (Suc m)
  have "replicate n CHR ''a'' \<noteq> []" using Suc by simp
  moreover have "hd (replicate n CHR ''a'') = CHR ''a''" using Suc by simp
  moreover have "last (replicate n CHR ''a'') = CHR ''a''" using Suc by (simp add: last_replicate)
  ultimately show ?thesis by (simp add: strip_id not_space_a)
qed

lemma prepare_pages_acc:
  "prepare_pages d pages acc = acc @ prepare_pages d pages []"
proof (induction pages arbitrary: acc)
  case Nil
  show ?case by simp
next
  case (Cons p ps)
  show ?case
    using Cons.IH [of acc] Cons.IH [of "acc @ [x]" for x] Cons.IH [of "[x]" for x]
    by (simp add: Let_def)
qed

section \<open>Effects of the components on the world\<close>

lemma emit_simps [simp]:
  "files (emit e w) = files w" "table (emit e w) = table w" "trace (emit e w) = trace w @ [e]"
  by (simp_all add: emit_def)

lemma proj_append [simp]:
  "inserts (xs @ ys) = inserts xs @ inserts ys"
  "unlinks (xs @ ys) = unlinks xs @ unlinks ys"
  "downloads (xs @ ys) = downloads xs @ downloads ys"
  "selects (xs @ ys) = selects xs @ selects ys"
  "embed_calls (xs @ ys) = embed_calls xs @ embed_calls ys"
  "prints (xs @ ys) = prints xs @ prints ys"
  by (simp_all add: inserts_def unlinks_def downloads_def selects_def embed_calls_def prints_def)

lemma proj_Nil [simp]:
  "inserts [] = []" "unlinks [] = []" "downloads [] = []" "selects [] = []"
  "embed_calls [] = []" "prints [] = []"
  by (simp_all add: inserts_def unlinks_def downloads_def selects_def embed_calls_def prints_def)

lemma proj_Cons [simp]:
  "inserts (e # tr) = (case e of Insert r \<Rightarrow> [r] | _ \<Rightarrow> []) @ inserts tr"
  "unlinks (e # tr) = (case e of Unlink p \<Rightarrow> [p] | _ \<Rightarrow> []) @ unlinks tr"
  "downloads (e # tr) = (case e of Download u \<Rightarrow> [u] | _ \<Rightarrow> []) @ downloads tr"
  "selects (e # tr) = (case e of Select t d \<Rightarrow> [(t, d)] | _ \<Rightarrow> []) @ selects tr"
  "embed_calls (e # tr) = (case e of EmbedCreate ts \<Rightarrow> [ts] | _ \<Rightarrow> []) @ embed_calls tr"
  "prints (e # tr) = (case e of Print m \<Rightarrow> [m] | _ \<Rightarrow> []) @ prints tr"
  by (simp_all add: inserts_def unlinks_def downloads_def selects_def embed_calls_def prints_def)

lemma store_loop_files:
  "store_loop env date title doc_type pdf_url total_pages ocr_data ps n w = (m, w') \<Longrightarrow> files w' = files w"
  by (induction ps arbitrary: n w) (auto simp: now_iso_def Let_def split: option.splits prod.splits)

lemma store_loop_count:
  "store_loop env date title doc_type pdf_url total_pages ocr_data ps n w = (m, w')
     \<Longrightarrow> m + length (table w) = n + length (table w')"
  by (induction ps arbitrary: n w) (fastforce simp: now_iso_def Let_def split: option.splits prod.splits)+

lemma store_loop_le:
  "store_loop env date title doc_type pdf_url total_pages ocr_data ps n w = (m, w')
     \<Longrightarrow> n \<le> m \<and> m \<le> n + length ps"
  by (induction ps arbitrary: n w) (fastforce simp: now_iso_def Let_def split: option.splits prod.splits)+

lemma store_loop_prints:
  "store_loop env date title doc_type pdf_url total_pages ocr_data ps n w = (m, w')
     \<Longrightarrow> length (prints (trace w')) + m = length (prints (trace w)) + n + length ps"
  by (induction ps arbitrary: n w) (fastforce simp: now_iso_def Let_def split: option.splits prod.splits)+

lemma store_loop_inserts:
  "store_loop env date title doc_type pdf_url total_pages ocr_data ps n w = (m, w')
     \<Longrightarrow> map (\<lambda>r. (r_page_number r, r_content r, r_embedding r)) (inserts (trace w'))
         = map (\<lambda>r. (r_page_number r, r_content r, r_embedding r)) (inserts (trace w))
           @ map (\<lambda>(p, e). (pd_page_number p, pd_content p, e)) ps"
  by (induction ps arbitrary: n w)
     (fastforce simp: now_iso_def Let_def make_row_def split: option.splits prod.splits)+

lemma store_loop_others:
  "store_loop env date title doc_type pdf_url total_pages ocr_data ps n w = (m, w')
     \<Longrightarrow> unlinks (trace w') = unlinks (trace w) \<and> downloads (trace w') = downloads (trace w)
       \<and> selects (trace w') = selects (trace w) \<and> embed_calls (trace w') = embed_calls (trace w)"
  by (induction ps arbitrary: n w)
     (fastforce simp: now_iso_def Let_def split: option.splits prod.splits)+

lemma make_row_simps [simp]:
  "r_content (make_row date title doc_type pdf_url total_pages ocr_data p e t1 t2) = pd_content p"
  "r_embedding (make_row date title doc_type pdf_url total_pages ocr_data p e t1 t2) = e"
  "r_title (make_row date title doc_type pdf_url total_pages ocr_data p e t1 t2) = title"
  "r_date (make_row date title doc_type pdf_url total_pages ocr_data p e t1 t2) = date"
  "r_page_number (make_row date title doc_type pdf_url total_pages ocr_data p e t1 t2) = pd_page_number p"
  by (simp_all add: make_row_def)

lemma store_loop_step:
  assumes "store_loop env date title doc_type pdf_url total_pages ocr_data ((p, e) # rest) n w = (m, w')"
  shows "\<exists>data w3. r_content data = pd_content p \<and> r_embedding data = e \<and> r_title data = title
           \<and> r_date data = date \<and> table w3 = table w
           \<and> (store_loop env date title doc_type pdf_url total_pages ocr_data rest (n + 1)
                  (w3\<lparr>table := table w3 @ [data]\<rparr>) = (m, w')
               \<or> (\<exists>msg. store_loop env date title doc_type pdf_url total_pages ocr_data rest n
                     (emit (Print msg) w3) = (m, w')))"
proof -
  define data where "data = make_row date title doc_type pdf_url total_pages ocr_data p e
      (clock env (emit Now w)) (clock env (emit Now (emit Now w)))"
  define w3 where "w3 = emit (Insert data) (emit Now (emit Now w))"
  have props: "r_content data = pd_content p" "r_embedding data = e" "r_title data = title"
      "r_date data = date" "table w3 = table w"
    by (simp_all add: data_def w3_def)
  show ?thesis
  proof (cases "insert_exec env w3 data")
    case None
    then have "store_loop env date title doc_type pdf_url total_pages ocr_data rest (n + 1)
                  (w3\<lparr>table := table w3 @ [data]\<rparr>) = (m, w')"
      using assms by (simp add: now_iso_def Let_def data_def w3_def)
    with props show ?thesis by blast
  next
    case (Some ex)
    then have "store_loop env date title doc_type pdf_url total_pages ocr_data rest n
                  (emit (Print (''[ERROR] Failed to store page ''
                                   @ str_int (pd_page_number p) @ '': '' @ str_exn ex)) w3) = (m, w')"
      using assms by (simp add: now_iso_def Let_def data_def w3_def)
    with props show ?thesis by blast
  qed
qed

lemma store_loop_table:
  "store_loop env date title doc_type pdf_url total_pages ocr_data ps n w = (m, w')
     \<Longrightarrow> \<exists>rs. table w' = table w @ rs
            \<and> (\<forall>r \<in> set rs. r_title r = title \<and> r_date r = date
                  \<and> (\<exists>(p, e) \<in> set ps. r_content r = pd_content p \<and> r_embedding r = e))"
proof (induction ps arbitrary: n w)
  case Nil
  then show ?case by simp
next
  case (Cons a ps)
  obtain p e where a: "a = (p, e)" by (cases a)
  from store_loop_step [OF Cons.prems [unfolded a]]
  obtain data w3 where d: "r_content data = pd_content p" "r_embedding data = e"
      "r_title data = title" "r_date data = date" "table w3 = table w"
    and alt: "store_loop env date title doc_type pdf_url total_pages ocr_data ps (n + 1)
                  (w3\<lparr>table := table w3 @ [data]\<rparr>) = (m, w')
               \<or> (\<exists>msg. store_loop env date title doc_type pdf_url total_pages ocr_data ps n
                     (emit (Print msg) w3) = (m, w'))"
    by blast
  from alt show ?case
  proof
    assume "store_loop env date title doc_type pdf_url total_pages ocr_data ps (n + 1)
                  (w3\<lparr>table := table w3 @ [data]\<rparr>) = (m, w')"
    from Cons.IH [OF this] obtain rs where rs: "table w' = table w @ [data] @ rs"
      "\<forall>r \<in> set rs. r_title r = title \<and> r_date r = date
                  \<and> (\<exists>(p, e) \<in> set ps. r_content r = pd_content p \<and> r_embedding r = e)"
      using d by auto
    have "\<forall>r \<in> set (data # rs). r_title r = title \<and> r_date r = date
                  \<and> (\<exists>(p, e) \<in> set (a # ps). r_content r = pd_content p \<and> r_embedding r = e)"
      using rs(2) d a by auto
    with rs(1) show ?thesis by (intro exI [of _ "data # rs"]) simp
  next
    assume "\<exists>msg. store_loop env date title doc_type pdf_url total_pages ocr_data ps n
                     (emit (Print msg) w3) = (m, w')"
    then obtain msg where "store_loop env date title doc_type pdf_url total_pages ocr_data ps n
                     (emit (Print msg) w3) = (m, w')" by blast
    from Cons.IH [OF this] obtain rs where rs: "table w' = table w @ rs"
      "\<forall>r \<in> set rs. r_title r = title \<and> r_date r = date
                  \<and> (\<exists>(p, e) \<in> set ps. r_content r = pd_content p \<and> r_embedding r = e)"
      using d by auto
    have "\<forall>r \<in> set rs. r_title r = title \<and> r_date r = date
                  \<and> (\<exists>(p, e) \<in> set (a # ps). r_content r = pd_content p \<and> r_embedding r = e)"
      using rs(2) by auto
    with rs(1) show ?thesis by blast
  qed
qed

lemma unlink_ok:
  "p \<in> files w \<Longrightarrow> unlink p w = Inr (emit (Unlink p) (w\<lparr>files := files w - {p}\<rparr>))"
  by (simp add: unlink_def)

lemma download_pdf_effect:
  assumes "download_pdf env url w = (r, w1)"
  shows "table w1 = table w" "downloads (trace w1) = downloads (trace w) @ [url]"
    "selects (trace w1) = selects (trace w)" "inserts (trace w1) = inserts (trace w)"
    "embed_calls (trace w1) = embed_calls (trace w)"
    "r = Some p \<Longrightarrow> p \<in> files w1 \<and> unlinks (trace w1) = unlinks (trace w)"
  using assms
  by (auto simp: download_pdf_def unlink_def Let_def split: sum.splits if_splits option.splits)

lemma extract_effect:
  assumes "extract_text_from_pdf env p w = (r, w1)"
  shows "files w1 = files w" "table w1 = table w" "downloads (trace w1) = downloads (trace w)"
    "selects (trace w1) = selects (trace w)" "inserts (trace w1) = inserts (trace w)"
    "embed_calls (trace w1) = embed_calls (trace w)" "unlinks (trace w1) = unlinks (trace w)"
  using assms
  by (auto simp: extract_text_from_pdf_def Let_def split: sum.splits if_splits)

lemma generate_effect:
  assumes "generate_embeddings_batch env ts w = (r, w1)"
  shows "files w1 = files w" "table w1 = table w" "downloads (trace w1) = downloads (trace w)"
    "selects (trace w1) = selects (trace w)" "inserts (trace w1) = inserts (trace w)"
    "embed_calls (trace w1) = embed_calls (trace w) @ [map clean_text ts]"
    "unlinks (trace w1) = unlinks (trace w)"
    "r = embeddings_create env w1 (map clean_text ts)"
  using assms
  by (auto simp: generate_embeddings_batch_def Let_def)

declare embed_batches.simps [simp del]

lemma embed_batches_frame:
  "embed_batches env P i acc w = (r, w') \<Longrightarrow>
     files w' = files w \<and> table w' = table w \<and> downloads (trace w') = downloads (trace w)
     \<and> selects (trace w') = selects (trace w) \<and> inserts (trace w') = inserts (trace w)
     \<and> unlinks (trace w') = unlinks (trace w)"
proof (induction env P i acc w rule: embed_batches.induct)
  case (1 env P i acc w)
  show ?case
  proof (cases "i < length P")
    case False
    with "1.prems" show ?thesis by (simp add: embed_batches.simps [of env P i acc w])
  next
    case True
    obtain g w1 where g: "generate_embeddings_batch env
        (map pd_content (take BATCH_EMBEDDING_SIZE (drop i P))) w = (g, w1)"
      by (cases "generate_embeddings_batch env
        (map pd_content (take BATCH_EMBEDDING_SIZE (drop i P))) w")
    note fr = generate_effect [OF g]
    show ?thesis
    proof (cases g)
      case (Inl e)
      with "1.prems" True g have "w' = w1"
        by (simp add: embed_batches.simps [of env P i acc w] Let_def)
      with fr show ?thesis by simp
    next
      case (Inr embs)
      with "1.prems" True g have rec: "embed_batches env P (i + BATCH_EMBEDDING_SIZE) (acc @ embs) w1 = (r, w')"
        by (simp add: embed_batches.simps [of env P i acc w] Let_def)
      from "1.IH" [OF True refl refl g [symmetric] Inr rec] fr show ?thesis by simp
    qed
  qed
qed

lemma unlink_return_ok:
  assumes "p \<in> files w" "unlink_return p b w = (r, w')"
  shows "r = Inr b" "table w' = table w" "files w' = files w - {p}"
    "unlinks (trace w') = unlinks (trace w) @ [p]"
    "downloads (trace w') = downloads (trace w)" "selects (trace w') = selects (trace w)"
    "inserts (trace w') = inserts (trace w)"
  using assms by (auto simp: unlink_return_def unlink_def)

lemma extract_not_list:
  "extract_text_from_pdf env p w = (Some (JList ds), w1) \<Longrightarrow> ds = []"
proof -
  have u: "\<And>j. unwrap j = JList ds \<Longrightarrow> ds = []"
  proof -
    fix j show "unwrap j = JList ds \<Longrightarrow> ds = []"
      by (cases j rule: unwrap.cases) auto
  qed
  assume "extract_text_from_pdf env p w = (Some (JList ds), w1)"
  then show ?thesis
    by (auto simp: extract_text_from_pdf_def Let_def split: if_splits sum.splits dest: u)
qed

lemma process_body_cases:
  assumes "process_body env date title doc_type pdf_url w = (r, w')"
  obtains
    (no_download) "download_pdf env pdf_url w = (None, w')" "r = Inr False"
  | (no_ocr) p w1 od w2 where "download_pdf env pdf_url w = (Some p, w1)"
      "extract_text_from_pdf env p w1 = (od, w2)" "\<not> truthy od"
      "unlink_return p False w2 = (r, w')"
  | (no_pages) p w1 d w2 where "download_pdf env pdf_url w = (Some p, w1)"
      "extract_text_from_pdf env p w1 = (Some (JDoc d), w2)"
      "prepare_pages d (get_default (od_pages d) []) [] = []"
      "unlink_return p False w2 = (r, w')"
  | (embed_raise) p w1 d w2 e where "download_pdf env pdf_url w = (Some p, w1)"
      "extract_text_from_pdf env p w1 = (Some (JDoc d), w2)"
      "prepare_pages d (get_default (od_pages d) []) [] \<noteq> []"
      "embed_batches env (prepare_pages d (get_default (od_pages d) []) []) 0 [] w2 = (Inl e, w')"
      "r = Inl e"
  | (stored) p w1 d w2 all_embeddings w3 n w4 where "download_pdf env pdf_url w = (Some p, w1)"
      "extract_text_from_pdf env p w1 = (Some (JDoc d), w2)"
      "prepare_pages d (get_default (od_pages d) []) [] \<noteq> []"
      "embed_batches env (prepare_pages d (get_default (od_pages d) []) []) 0 [] w2
         = (Inr all_embeddings, w3)"
      "store_document_pages env date title doc_type pdf_url
         (prepare_pages d (get_default (od_pages d) []) []) all_embeddings d w3 = (n, w4)"
      "unlink_return p (n > 0) w4 = (r, w')"
proof -
  obtain dl w1 where dl: "download_pdf env pdf_url w = (dl, w1)"
    by (cases "download_pdf env pdf_url w")
  show thesis
  proof (cases dl)
    case None
    with assms dl show thesis by (intro no_download) (auto simp: process_body_def)
  next
    case (Some p)
    obtain od w2 where ex: "extract_text_from_pdf env p w1 = (od, w2)"
      by (cases "extract_text_from_pdf env p w1")
    show thesis
    proof (cases "truthy od")
      case False
      with assms dl Some ex have "unlink_return p False w2 = (r, w')"
        by (simp add: process_body_def)
      with dl Some ex False show thesis by (intro no_ocr [of p w1 od w2]) auto
    next
      case True
      then obtain j where od: "od = Some j" by (cases od) auto
      show thesis
      proof (cases j)
        case (JList ds)
        with ex od have "ds = []" using extract_not_list by blast
        with True od JList show thesis by simp
      next
        case (JDoc d)
        let ?P = "prepare_pages d (get_default (od_pages d) []) []"
        show thesis
        proof (cases "?P = []")
          case e: True
          with assms dl Some ex True od JDoc have "unlink_return p False w2 = (r, w')"
            by (simp add: process_body_def Let_def)
          with dl Some ex od JDoc e show thesis by (intro no_pages [of p w1 d w2]) auto
        next
          case ne: False
          obtain eb w3 where eb: "embed_batches env ?P 0 [] w2 = (eb, w3)"
            by (cases "embed_batches env ?P 0 [] w2")
          show thesis
          proof (cases eb)
            case (Inl e)
            with assms dl Some ex True od JDoc ne eb have "r = Inl e" "w' = w3"
              by (simp_all add: process_body_def Let_def)
            with dl Some ex od JDoc ne eb Inl show thesis
              by (intro embed_raise [of p w1 d w2 e]) auto
          next
            case (Inr all_embeddings)
            obtain n w4 where st: "store_document_pages env date title doc_type pdf_url
                ?P all_embeddings d w3 = (n, w4)"
              by (cases "store_document_pages env date title doc_type pdf_url ?P all_embeddings d w3")
            with assms dl Some ex True od JDoc ne eb Inr have "unlink_return p (n > 0) w4 = (r, w')"
              by (simp add: process_body_def Let_def)
            with dl Some ex od JDoc ne eb Inr st show thesis
              by (intro stored [of p w1 d w2 all_embeddings w3 n w4]) auto
          qed
        qed
      qed
    qed
  qed
qed

lemma store_document_pages_effect:
  assumes "store_document_pages env date title doc_type pdf_url P embs d w = (n, w')"
  shows "files w' = files w" "n + length (table w) = length (table w')"
    "downloads (trace w') = downloads (trace w)" "selects (trace w') = selects (trace w)"
    "unlinks (trace w') = unlinks (trace w)"
  using assms store_loop_files store_loop_count store_loop_others
  unfolding store_document_pages_def by fastforce+

lemma process_body_effect:
  assumes "process_body env date title doc_type pdf_url w = (r, w')"
  shows "(r = Inr True) = (length (table w) < length (table w'))"
    and "downloads (trace w') = downloads (trace w) @ [pdf_url]"
    and "selects (trace w') = selects (trace w)"
    and "length (table w) \<le> length (table w')"
proof -
  have "(r = Inr True) = (length (table w) < length (table w'))
      \<and> downloads (trace w') = downloads (trace w) @ [pdf_url]
      \<and> selects (trace w') = selects (trace w)
      \<and> length (table w) \<le> length (table w')"
    using assms
  proof (cases rule: process_body_cases)
    case no_download
    from download_pdf_effect(1-3) [OF no_download(1)] no_download(2) show ?thesis by simp
  next
    case (no_ocr p w1 od w2)
    note d = download_pdf_effect [OF no_ocr(1)]
    note e = extract_effect [OF no_ocr(2)]
    have "p \<in> files w2" using d(6) [of p] e(1) by simp
    note u = unlink_return_ok [OF this no_ocr(4)]
    show ?thesis using d(1-3) e u by simp
  next
    case (no_pages p w1 d w2)
    note dl = download_pdf_effect [OF no_pages(1)]
    note e = extract_effect [OF no_pages(2)]
    have "p \<in> files w2" using dl(6) [of p] e(1) by simp
    note u = unlink_return_ok [OF this no_pages(4)]
    show ?thesis using dl(1-3) e u by simp
  next
    case (embed_raise p w1 d w2 e)
    note dl = download_pdf_effect [OF embed_raise(1)]
    note ex = extract_effect [OF embed_raise(2)]
    note eb = embed_batches_frame [OF embed_raise(4)]
    show ?thesis using dl(1-3) ex eb embed_raise(5) by simp
  next
    case (stored p w1 d w2 all_embeddings w3 n w4)
    note dl = download_pdf_effect [OF stored(1)]
    note ex = extract_effect [OF stored(2)]
    note eb = embed_batches_frame [OF stored(4)]
    note st = store_document_pages_effect [OF stored(5)]
    have "p \<in> files w4" using dl(6) [of p] ex(1) eb st(1) by simp
    note u = unlink_return_ok [OF this stored(6)]
    have "length (table w') = n + length (table w)"
      using dl(1) ex(2) eb st(2) u(2) by simp
    moreover have "downloads (trace w') = downloads (trace w) @ [pdf_url]"
      using dl(2) ex(3) eb st(3) u(5) by simp
    moreover have "selects (trace w') = selects (trace w)"
      using dl(3) ex(4) eb st(4) u(6) by simp
    ultimately show ?thesis using u(1) by auto
  qed
  then show "(r = Inr True) = (length (table w) < length (table w'))"
    and "downloads (trace w') = downloads (trace w) @ [pdf_url]"
    and "selects (trace w') = selects (trace w)"
    and "length (table w) \<le> length (table w')" by simp_all
qed

lemma process_new_document_effect:
  assumes "process_new_document env date title doc_type pdf_url w = (b, w')"
  shows "b = (length (table w) < length (table w'))"
    and "downloads (trace w') = downloads (trace w) @ [pdf_url]"
    and "selects (trace w') = selects (trace w)"
    and "length (table w) \<le> length (table w')"
proof -
  obtain r w1 where pb: "process_body env date title doc_type pdf_url w = (r, w1)"
    by (cases "process_body env date title doc_type pdf_url w")
  note e = process_body_effect [OF pb]
  show "b = (length (table w) < length (table w'))"
    using assms pb e(1) by (cases r) (auto simp: process_new_document_def)
  show "downloads (trace w') = downloads (trace w) @ [pdf_url]"
    using assms pb e(2) by (cases r) (auto simp: process_new_document_def)
  show "selects (trace w') = selects (trace w)"
    using assms pb e(3) by (cases r) (auto simp: process_new_document_def)
  show "length (table w) \<le> length (table w')"
    using assms pb e(4) by (cases r) (auto simp: process_new_document_def)
qed

declare chunks.simps [simp del]

lemma chunks_Nil [simp]: "chunks n [] = []"
  by (simp add: chunks.simps)

lemma embed_batches_aligned:
  assumes provider: "\<And>w ts. \<exists>vs. embeddings_create env w ts = Inr vs \<and> list_all2 corr ts vs"
  shows "\<exists>new w'. embed_batches env P i acc w = (Inr (acc @ new), w')
           \<and> list_all2 (\<lambda>p v. corr (clean_text (pd_content p)) v) (drop i P) new
           \<and> embed_calls (trace w') = embed_calls (trace w)
               @ map (map (\<lambda>p. clean_text (pd_content p))) (chunks BATCH_EMBEDDING_SIZE (drop i P))"
  using provider
proof (induction env P i acc w rule: embed_batches.induct)
  case (1 env P i acc w)
  let ?B = BATCH_EMBEDDING_SIZE
  let ?Q = "\<lambda>p v. corr (clean_text (pd_content p)) v"
  show ?case
  proof (cases "i < length P")
    case False
    then show ?thesis by (simp add: embed_batches.simps [of env P i acc w])
  next
    case True
    define batch where "batch = take ?B (drop i P)"
    define ts where "ts = map clean_text (map pd_content batch)"
    define w1 where "w1 = emit (EmbedCreate ts) w"
    from "1.prems" obtain vs where vs: "embeddings_create env w1 ts = Inr vs" "list_all2 corr ts vs"
      by blast
    have g: "generate_embeddings_batch env (map pd_content batch) w = (Inr vs, w1)"
      using vs(1) by (simp add: generate_embeddings_batch_def Let_def ts_def w1_def)
    have unfold: "embed_batches env P i acc w = embed_batches env P (i + ?B) (acc @ vs) w1"
      using True g by (simp add: embed_batches.simps [of env P i acc w] Let_def batch_def)
    from "1.IH" [OF True refl refl g [symmetric, unfolded batch_def] refl "1.prems"]
    obtain new w' where ih: "embed_batches env P (i + ?B) (acc @ vs) w1 = (Inr ((acc @ vs) @ new), w')"
        "list_all2 ?Q (drop (i + ?B) P) new"
        "embed_calls (trace w') = embed_calls (trace w1)
           @ map (map (\<lambda>p. clean_text (pd_content p))) (chunks ?B (drop (i + ?B) P))"
      by blast
    have dd: "drop (i + ?B) P = drop ?B (drop i P)"
      by (simp add: add.commute)
    have split: "drop i P = batch @ drop (i + ?B) P"
      unfolding dd batch_def by (rule append_take_drop_id [symmetric])
    have "list_all2 ?Q batch vs"
      using vs(2) by (simp add: ts_def list_all2_map1)
    then have al: "list_all2 ?Q (drop i P) (vs @ new)"
      using ih(2) split by (simp add: list_all2_appendI)
    have ne: "drop i P \<noteq> []" using True by simp
    have ch: "chunks ?B (drop i P) = batch # chunks ?B (drop (i + ?B) P)"
      using ne unfolding dd batch_def
      by (subst chunks.simps) (simp add: BATCH_EMBEDDING_SIZE_def)
    have tr: "embed_calls (trace w') = embed_calls (trace w)
           @ map (map (\<lambda>p. clean_text (pd_content p))) (chunks ?B (drop i P))"
      using ih(3) by (simp add: ch w1_def ts_def)
    show ?thesis using unfold ih(1) al tr by auto
  qed
qed

section \<open>Page filter\<close>

lemma prepare_pages_filter:
  "prepare_pages d pages [] =
     map (\<lambda>page. \<lparr>pd_page_number = get_default (pg_index page) 0 + 1,
                    pd_content = get_default (pg_markdown page) [],
                    pd_original_text = get_default (od_extractedText d) [],
                    pd_page_info = page\<rparr>) (filter retained pages)"
proof (induction pages)
  case Nil
  show ?case by simp
next
  case (Cons p ps)
  show ?case
    using Cons.IH prepare_pages_acc [of d ps "[x]" for x]
    by (auto simp: Let_def retained_def)
qed

text \<open>
  C8.  An extracted page is retained for embedding and storage if and only if its markdown
  content is not empty and the trimmed content has at least 50 characters: the prepared
  page data are exactly the retained pages, in order, with their markdown as content.  A
  page whose trimmed content has exactly 49 characters is dropped (the loop is a pure
  function, so nothing is logged), one with exactly 50 is retained.
\<close>

theorem page_filter_threshold:
  "map pd_page_info (prepare_pages ocr_data pages []) = filter retained pages
   \<and> map pd_content (prepare_pages ocr_data pages [])
       = map (\<lambda>p. get_default (pg_markdown p) []) (filter retained pages)
   \<and> (length (strip (get_default (pg_markdown page) [])) = 49
        \<longrightarrow> prepare_pages ocr_data [page] [] = [])
   \<and> (length (strip (get_default (pg_markdown page) [])) = 50
        \<longrightarrow> map pd_page_info (prepare_pages ocr_data [page] []) = [page])"
  by (auto simp: prepare_pages_filter comp_def retained_def strip_def)

theorem page_filter_threshold_witness:
  "length (strip (get_default (pg_markdown (page_of 1 49)) [])) = 49
   \<and> prepare_pages (doc_of []) [page_of 1 49] [] = []
   \<and> length (strip (get_default (pg_markdown (page_of 0 50)) [])) = 50
   \<and> map pd_page_info (prepare_pages (doc_of []) [page_of 0 50] []) = [page_of 0 50]
   \<and> map pd_page_info (prepare_pages (doc_of []) [page_of 0 50, page_of 1 49] []) = [page_of 0 50]"
proof -
  have a: "length (strip (get_default (pg_markdown (page_of 1 49)) [])) = 49"
    by (simp add: page_of_def get_default_def strip_replicate_a)
  have b: "length (strip (get_default (pg_markdown (page_of 0 50)) [])) = 50"
    by (simp add: page_of_def get_default_def strip_replicate_a)
  have r: "retained (page_of 0 50)" "\<not> retained (page_of 1 49)"
    by (simp_all add: retained_def page_of_def get_default_def strip_replicate_a)
  show ?thesis
    using page_filter_threshold [of "doc_of []" "[page_of 1 49]" "page_of 1 49"]
      page_filter_threshold [of "doc_of []" "[page_of 0 50]" "page_of 0 50"]
      page_filter_threshold [of "doc_of []" "[page_of 0 50, page_of 1 49]" "page_of 0 50"]
      a b r
    by simp
qed

section \<open>Existence check\<close>

lemma take1_filter_nonempty:
  "(0 < length (take 1 (filter P xs))) = (\<exists>x \<in> set xs. P x)"
proof -
  have "(0 < length (take 1 (filter P xs))) = (filter P xs \<noteq> [])"
    by (cases "filter P xs") simp_all
  then show ?thesis by (simp add: filter_empty_conv)
qed

text \<open>
  C5.  For every title and date, \<open>check_document_exists\<close> returns a truth value and never
  an exception: when the storage query raises, the answer is \<open>False\<close> (the document is
  treated as new); when the query succeeds, the answer is \<open>True\<close> if and only if the table
  holds a row of that title and date.  The call is the only event.
\<close>

theorem exists_fails_open:
  "check_document_exists env title date w = (found, w') \<Longrightarrow>
     w' = emit (Select title date) w
     \<and> (select_exec env w' title date \<noteq> None \<longrightarrow> \<not> found)
     \<and> (select_exec env w' title date = None
          \<longrightarrow> found = (\<exists>x \<in> set (table w). r_title x = title \<and> r_date x = date))"
  by (auto simp: check_document_exists_def Let_def select_data_def take1_filter_nonempty filter_empty_conv
           split: option.splits)

theorem exists_fails_open_witness:
  "check_document_exists
      (example_env [] [] True (\<lambda>r. True)\<lparr>select_exec := (\<lambda>w t d. Some (Exception ''timed out''))\<rparr>)
      ''Policy Document'' ''1 Jan 2024'' empty_world
     = (False, emit (Select ''Policy Document'' ''1 Jan 2024'') empty_world)
   \<and> check_document_exists (example_env [] [] True (\<lambda>r. True))
      ''Policy Document'' ''1 Jan 2024'' empty_world
     = (False, emit (Select ''Policy Document'' ''1 Jan 2024'') empty_world)"
proof -
  define bad where "bad = example_env [] [] True (\<lambda>r. True)\<lparr>select_exec := (\<lambda>w t d. Some (Exception ''timed out''))\<rparr>"
  define ok where "ok = example_env [] [] True (\<lambda>r. True)"
  define X where "X = check_document_exists bad ''Policy Document'' ''1 Jan 2024'' empty_world"
  define Y where "Y = check_document_exists ok ''Policy Document'' ''1 Jan 2024'' empty_world"
  have sb: "\<And>w. select_exec bad w ''Policy Document'' ''1 Jan 2024'' \<noteq> None"
    by (simp add: bad_def example_env_def)
  have so: "\<And>w. select_exec ok w ''Policy Document'' ''1 Jan 2024'' = None"
    by (simp add: ok_def example_env_def)
  have t: "table empty_world = []" by (simp add: empty_world_def)
  have a: "check_document_exists bad ''Policy Document'' ''1 Jan 2024'' empty_world = (fst X, snd X)"
    by (simp add: X_def)
  have b: "check_document_exists ok ''Policy Document'' ''1 Jan 2024'' empty_world = (fst Y, snd Y)"
    by (simp add: Y_def)
  have 1: "X = (False, emit (Select ''Policy Document'' ''1 Jan 2024'') empty_world)"
    using exists_fails_open [OF a] sb by (simp add: prod_eq_iff)
  have 2: "Y = (False, emit (Select ''Policy Document'' ''1 Jan 2024'') empty_world)"
    using exists_fails_open [OF b] so t by (simp add: prod_eq_iff)
  from 1 2 show ?thesis unfolding X_def Y_def bad_def ok_def by (rule conjI)
qed

section \<open>Trigger\<close>

text \<open>
  C4.  When the status is \<open>running\<close>, the trigger raises the HTTP exception 409, adds no
  background task and leaves the status record and the world as they are.  Otherwise it
  returns the response with status \<open>started\<close>, a message and the job identifier (the
  current time), and adds the run to the background tasks.
\<close>

theorem trigger_gate:
  "(cs_status st = ''running'' \<longrightarrow>
      trigger_bnm_scrape env st background_tasks w
        = (Inl (HTTPException 409 ''Cron job already running''), st, background_tasks, w))
   \<and> (cs_status st \<noteq> ''running'' \<longrightarrow>
      trigger_bnm_scrape env st background_tasks w
        = (Inr \<lparr>cr_status = ''started'',
                cr_message = ''BNM scraping job started in background'',
                cr_job_id = Some (clock env (emit Now w))\<rparr>,
           st, background_tasks @ [Run_daily_scrape], emit Now w))"
  by (simp add: trigger_bnm_scrape_def now_iso_def Let_def)

theorem trigger_gate_witness:
  "trigger_bnm_scrape (example_env [] [] True (\<lambda>r. True))
      (initial_cron_status\<lparr>cs_status := ''running'', cs_processed := 3\<rparr>) [] empty_world
     = (Inl (HTTPException 409 ''Cron job already running''),
        initial_cron_status\<lparr>cs_status := ''running'', cs_processed := 3\<rparr>, [], empty_world)
   \<and> trigger_bnm_scrape (example_env [] [] True (\<lambda>r. True)) initial_cron_status [] empty_world
     = (Inr \<lparr>cr_status = ''started'',
             cr_message = ''BNM scraping job started in background'',
             cr_job_id = Some ''2024-01-01T00:00:00''\<rparr>,
        initial_cron_status, [Run_daily_scrape], emit Now empty_world)"
  using trigger_gate [of "initial_cron_status\<lparr>cs_status := ''running'', cs_processed := 3\<rparr>"
          "example_env [] [] True (\<lambda>r. True)" "[]" empty_world]
        trigger_gate [of initial_cron_status "example_env [] [] True (\<lambda>r. True)" "[]" empty_world]
  by (simp add: initial_cron_status_def example_env_def)

section \<open>Page Store\<close>

lemmas eval_defs =
  process_new_document_def process_body_def download_pdf_def extract_text_from_pdf_def
  example_env_def three_pages_def page_of_def doc_of_def empty_world_def Let_def
  last_segment_def endswith_def DOWNLOAD_DIR_def emit_def get_default_def strip_replicate_a
  embed_batches.simps generate_embeddings_batch_def store_document_pages_def now_iso_def
  unlink_return_def unlink_def BATCH_EMBEDDING_SIZE_def

lemma map_zip_nth:
  "map (\<lambda>(p, e). f p e) (zip xs ys)
     = map (\<lambda>i. f (xs ! i) (ys ! i)) [0..<min (length xs) (length ys)]"
  by (rule nth_equalityI) auto

text \<open>
  C10.  \<open>store_document_pages\<close> pairs pages and vectors by position and attempts an insert
  only for the indices that both lists have: the inserts it sends are those of the pairs
  \<open>(pages_data ! i, embeddings ! i)\<close> for \<open>i\<close> below the shorter length, in order.  A page
  beyond the vectors is never attempted and nothing is printed for it (every printed line
  belongs to a failed insert), and the returned count is at most the shorter length.
\<close>

theorem store_pairs_positionally:
  assumes "store_document_pages env date title doc_type pdf_url pages_data embeddings ocr_data w
             = (n, w')"
  shows "n \<le> min (length pages_data) (length embeddings)
     \<and> map (\<lambda>r. (r_page_number r, r_content r, r_embedding r)) (inserts (trace w'))
         = map (\<lambda>r. (r_page_number r, r_content r, r_embedding r)) (inserts (trace w))
           @ map (\<lambda>i. (pd_page_number (pages_data ! i), pd_content (pages_data ! i), embeddings ! i))
               [0..<min (length pages_data) (length embeddings)]
     \<and> length (prints (trace w')) + n
         = length (prints (trace w)) + min (length pages_data) (length embeddings)"
proof -
  from assms have sl: "store_loop env date title doc_type pdf_url (length pages_data) ocr_data
      (zip pages_data embeddings) 0 w = (n, w')"
    by (simp add: store_document_pages_def)
  have "n \<le> min (length pages_data) (length embeddings)"
    using store_loop_le [OF sl] by simp
  moreover have "map (\<lambda>r. (r_page_number r, r_content r, r_embedding r)) (inserts (trace w'))
         = map (\<lambda>r. (r_page_number r, r_content r, r_embedding r)) (inserts (trace w))
           @ map (\<lambda>i. (pd_page_number (pages_data ! i), pd_content (pages_data ! i), embeddings ! i))
               [0..<min (length pages_data) (length embeddings)]"
    using store_loop_inserts [OF sl]
      map_zip_nth [of "\<lambda>p e. (pd_page_number p, pd_content p, e)" pages_data embeddings]
    by simp
  moreover have "length (prints (trace w')) + n
         = length (prints (trace w)) + min (length pages_data) (length embeddings)"
    using store_loop_prints [OF sl] by simp
  ultimately show ?thesis by blast
qed

theorem store_pairs_positionally_witness:
  "fst (store_document_pages (example_env [] three_pages True (\<lambda>r. True))
          ''1 Jan 2024'' ''Policy Document'' ''Notice'' ''https://www.bnm.gov.my/documents/a.pdf''
          (prepare_pages (doc_of three_pages) three_pages []) [[1], [2]] (doc_of three_pages)
          empty_world) = 2
   \<and> map (\<lambda>r. (r_page_number r, r_embedding r))
       (inserts (trace (snd (store_document_pages (example_env [] three_pages True (\<lambda>r. True))
          ''1 Jan 2024'' ''Policy Document'' ''Notice'' ''https://www.bnm.gov.my/documents/a.pdf''
          (prepare_pages (doc_of three_pages) three_pages []) [[1], [2]] (doc_of three_pages)
          empty_world))))
       = [(1, [1]), (2, [2])]"
proof -
  define P where "P = prepare_pages (doc_of three_pages) three_pages []"
  define X where "X = store_document_pages (example_env [] three_pages True (\<lambda>r. True))
          ''1 Jan 2024'' ''Policy Document'' ''Notice'' ''https://www.bnm.gov.my/documents/a.pdf''
          P [[1], [2]] (doc_of three_pages) empty_world"
  have "\<exists>p0 p1 p2. P = [p0, p1, p2] \<and> pd_page_number p0 = 1 \<and> pd_page_number p1 = 2"
    by (simp add: P_def three_pages_def page_of_def doc_of_def Let_def get_default_def
          strip_replicate_a)
  then obtain p0 p1 p2 where P: "P = [p0, p1, p2]" "pd_page_number p0 = 1" "pd_page_number p1 = 2"
    by blast
  have a: "store_document_pages (example_env [] three_pages True (\<lambda>r. True))
          ''1 Jan 2024'' ''Policy Document'' ''Notice'' ''https://www.bnm.gov.my/documents/a.pdf''
          P [[1], [2]] (doc_of three_pages) empty_world = (fst X, snd X)"
    by (simp add: X_def)
  have np: "prints (trace (snd X)) = []"
    by (simp add: X_def P_def store_document_pages_def three_pages_def page_of_def doc_of_def
          Let_def get_default_def strip_replicate_a now_iso_def example_env_def empty_world_def)
  have e: "empty_world = \<lparr>files = {}, table = [], trace = []\<rparr>"
    by (simp add: empty_world_def)
  have u: "[0..<2] = [0, 1]" by (simp add: upt_rec)
  from store_pairs_positionally [OF a] np P
  have 1: "fst X = 2"
    and 2: "map (\<lambda>r. (r_page_number r, r_content r, r_embedding r)) (inserts (trace (snd X)))
         = [(1, pd_content p0, [1]), (2, pd_content p1, [2])]"
    by (simp_all add: e u)
  have "map (\<lambda>r. (r_page_number r, r_embedding r)) (inserts (trace (snd X)))
      = map (\<lambda>(a, b, c). (a, c))
          (map (\<lambda>r. (r_page_number r, r_content r, r_embedding r)) (inserts (trace (snd X))))"
    by (simp add: comp_def)
  also have "\<dots> = [(1, [1]), (2, [2])]"
    by (simp add: 2)
  finally show ?thesis using 1 unfolding X_def P_def by simp
qed

text \<open>
  C3.  \<open>store_document_pages\<close> writes each page on its own: every pair is sent to the table
  whatever happened to the pairs before it, a failed insert is printed and skipped, and the
  returned count is the number of rows written.  \<open>process_new_document\<close> returns \<open>True\<close> if
  and only if it wrote at least one row, and the coordinator counts the document as
  processed exactly then, as failed otherwise.  With three pages and one successful insert
  the document is processed.
\<close>

theorem partial_persistence:
  assumes "store_document_pages env date title doc_type pdf_url pages_data embeddings ocr_data w
             = (n, w')"
      and "process_new_document env date title doc_type pdf_url v = (success, v')"
      and "process_docs env [(date, title, doc_type, pdf_url)] st v = (st', v'')"
  shows "n + length (table w) = length (table w')
     \<and> length (inserts (trace w')) = length (inserts (trace w)) + length (zip pages_data embeddings)
     \<and> length (prints (trace w')) + n = length (prints (trace w)) + length (zip pages_data embeddings)
     \<and> success = (length (table v) < length (table v'))
     \<and> (success \<longrightarrow> cs_processed st' = cs_processed st + 1 \<and> cs_failed st' = cs_failed st)
     \<and> (\<not> success \<longrightarrow> cs_processed st' = cs_processed st \<and> cs_failed st' = cs_failed st + 1)"
proof -
  from assms(1) have sl: "store_loop env date title doc_type pdf_url (length pages_data) ocr_data
      (zip pages_data embeddings) 0 w = (n, w')"
    by (simp add: store_document_pages_def)
  have a: "n + length (table w) = length (table w')"
    using store_loop_count [OF sl] by simp
  have "length (map (\<lambda>r. (r_page_number r, r_content r, r_embedding r)) (inserts (trace w')))
      = length (map (\<lambda>r. (r_page_number r, r_content r, r_embedding r)) (inserts (trace w))
           @ map (\<lambda>(p, e). (pd_page_number p, pd_content p, e)) (zip pages_data embeddings))"
    using store_loop_inserts [OF sl] by simp
  then have b: "length (inserts (trace w'))
      = length (inserts (trace w)) + length (zip pages_data embeddings)"
    by simp
  have c: "length (prints (trace w')) + n
      = length (prints (trace w)) + length (zip pages_data embeddings)"
    using store_loop_prints [OF sl] by simp
  have d: "success = (length (table v) < length (table v'))"
    by (rule process_new_document_effect(1) [OF assms(2)])
  have e: "(success \<longrightarrow> cs_processed st' = cs_processed st + 1 \<and> cs_failed st' = cs_failed st)
     \<and> (\<not> success \<longrightarrow> cs_processed st' = cs_processed st \<and> cs_failed st' = cs_failed st + 1)"
    using assms(2,3) by (auto simp: Let_def)
  from a b c d e show ?thesis by blast
qed

theorem partial_persistence_witness:
  "fst (store_document_pages (example_env [] three_pages True (\<lambda>r. r_page_number r = 2))
          ''1 Jan 2024'' ''Policy Document'' ''Notice'' ''https://www.bnm.gov.my/documents/a.pdf''
          (prepare_pages (doc_of three_pages) three_pages []) [[50], [50], [50]]
          (doc_of three_pages) empty_world) = 1
   \<and> fst (process_new_document (example_env [] three_pages True (\<lambda>r. r_page_number r = 2))
          ''1 Jan 2024'' ''Policy Document'' ''Notice'' ''https://www.bnm.gov.my/documents/a.pdf''
          empty_world)
   \<and> cs_processed (fst (process_docs (example_env [] three_pages True (\<lambda>r. r_page_number r = 2))
          [(''1 Jan 2024'', ''Policy Document'', ''Notice'', ''https://www.bnm.gov.my/documents/a.pdf'')]
          initial_cron_status empty_world)) = 1
   \<and> cs_failed (fst (process_docs (example_env [] three_pages True (\<lambda>r. r_page_number r = 2))
          [(''1 Jan 2024'', ''Policy Document'', ''Notice'', ''https://www.bnm.gov.my/documents/a.pdf'')]
          initial_cron_status empty_world)) = 0"
proof -
  define env where "env = example_env [] three_pages True (\<lambda>r. r_page_number r = 2)"
  define P where "P = prepare_pages (doc_of three_pages) three_pages []"
  define X where "X = store_document_pages env
          ''1 Jan 2024'' ''Policy Document'' ''Notice'' ''https://www.bnm.gov.my/documents/a.pdf''
          P [[50], [50], [50]] (doc_of three_pages) empty_world"
  define Y where "Y = process_new_document env
          ''1 Jan 2024'' ''Policy Document'' ''Notice'' ''https://www.bnm.gov.my/documents/a.pdf''
          empty_world"
  define Z where "Z = process_docs env
          [(''1 Jan 2024'', ''Policy Document'', ''Notice'', ''https://www.bnm.gov.my/documents/a.pdf'')]
          initial_cron_status empty_world"
  have a: "store_document_pages env
          ''1 Jan 2024'' ''Policy Document'' ''Notice'' ''https://www.bnm.gov.my/documents/a.pdf''
          P [[50], [50], [50]] (doc_of three_pages) empty_world = (fst X, snd X)"
    by (simp add: X_def)
  have b: "process_new_document env
          ''1 Jan 2024'' ''Policy Document'' ''Notice'' ''https://www.bnm.gov.my/documents/a.pdf''
          empty_world = (fst Y, snd Y)"
    by (simp add: Y_def)
  have c: "process_docs env
          [(''1 Jan 2024'', ''Policy Document'', ''Notice'', ''https://www.bnm.gov.my/documents/a.pdf'')]
          initial_cron_status empty_world = (fst Z, snd Z)"
    by (simp add: Z_def)
  have tx: "length (table (snd X)) = 1"
    by (simp add: X_def P_def env_def store_document_pages_def three_pages_def page_of_def
          doc_of_def Let_def get_default_def strip_replicate_a now_iso_def example_env_def
          empty_world_def)
  have ty: "length (table (snd Y)) = 1"
    by (simp add: Y_def env_def eval_defs)
  have e: "table empty_world = []" "cs_processed initial_cron_status = 0"
      "cs_failed initial_cron_status = 0"
    by (simp_all add: empty_world_def initial_cron_status_def)
  from partial_persistence [OF a b c] tx ty e
  have "fst X = 1 \<and> fst Y \<and> cs_processed (fst Z) = 1 \<and> cs_failed (fst Z) = 0"
    by simp
  then show ?thesis unfolding X_def Y_def Z_def P_def env_def by simp
qed

section \<open>Embedding batches\<close>

lemma chunks_partition:
  "0 < n \<Longrightarrow> concat (chunks n xs) = xs \<and> (\<forall>c \<in> set (chunks n xs). c \<noteq> [] \<and> length c \<le> n)"
proof (induction n xs rule: chunks.induct)
  case (1 n xs)
  show ?case
  proof (cases "xs = []")
    case True
    then show ?thesis by simp
  next
    case False
    with "1.prems" have ch: "chunks n xs = take n xs # chunks n (drop n xs)"
      by (subst chunks.simps) simp
    from "1.IH" "1.prems" False
    have ih: "concat (chunks n (drop n xs)) = drop n xs"
        "\<forall>c \<in> set (chunks n (drop n xs)). c \<noteq> [] \<and> length c \<le> n"
      by simp_all
    from ih False "1.prems" show ?thesis by (simp add: ch)
  qed
qed

lemma clean_replicate_a:
  "n \<le> 8000 \<Longrightarrow> clean_text (replicate n CHR ''a'') = replicate n CHR ''a''"
proof -
  have "replace_newlines (replicate n CHR ''a'') = replicate n CHR ''a''"
    by (simp add: replace_newlines_def)
  then show "n \<le> 8000 \<Longrightarrow> ?thesis"
    by (simp add: clean_text_def Let_def strip_replicate_a)
qed

text \<open>
  C7.  The Document Processor cuts the retained pages into consecutive chunks of
  \<open>BATCH_EMBEDDING_SIZE\<close>, gives the contents of each chunk, in order, to one embedding call
  (the Embedding Generator cleans them and sends them to the provider, which the trace
  records), and appends the results in chunk order.  When every provider call returns one
  vector for each text, in order (each vector is in the relation \<open>corr\<close> to its text), no
  call raises, the final list has as many vectors as there are retained pages, and vector
  \<open>i\<close> is the one of page \<open>i\<close>.  The pages are those that pass the content filter, so a
  filtered page is never submitted.
\<close>

theorem batches_aligned:
  assumes "\<And>w ts. \<exists>vs. embeddings_create env w ts = Inr vs \<and> list_all2 corr ts vs"
  shows "\<exists>all_embeddings w'.
      embed_batches env (prepare_pages ocr_data pages []) 0 [] w = (Inr all_embeddings, w')
    \<and> length all_embeddings = length (prepare_pages ocr_data pages [])
    \<and> (\<forall>i < length all_embeddings.
          corr (clean_text (pd_content (prepare_pages ocr_data pages [] ! i))) (all_embeddings ! i))
    \<and> embed_calls (trace w') = embed_calls (trace w)
        @ map (map (\<lambda>p. clean_text (pd_content p)))
            (chunks BATCH_EMBEDDING_SIZE (prepare_pages ocr_data pages []))
    \<and> concat (chunks BATCH_EMBEDDING_SIZE (prepare_pages ocr_data pages []))
        = prepare_pages ocr_data pages []
    \<and> (\<forall>c \<in> set (chunks BATCH_EMBEDDING_SIZE (prepare_pages ocr_data pages [])).
          c \<noteq> [] \<and> length c \<le> BATCH_EMBEDDING_SIZE)
    \<and> map pd_page_info (prepare_pages ocr_data pages []) = filter retained pages"
proof -
  let ?P = "prepare_pages ocr_data pages []"
  from embed_batches_aligned [of env corr ?P 0 "[]" w, OF assms]
  obtain new w' where e: "embed_batches env ?P 0 [] w = (Inr new, w')"
      "list_all2 (\<lambda>p v. corr (clean_text (pd_content p)) v) ?P new"
      "embed_calls (trace w') = embed_calls (trace w)
        @ map (map (\<lambda>p. clean_text (pd_content p))) (chunks BATCH_EMBEDDING_SIZE ?P)"
    by auto
  have len: "length new = length ?P"
    using e(2) by (simp add: list_all2_lengthD)
  have nth: "\<forall>i < length new. corr (clean_text (pd_content (?P ! i))) (new ! i)"
    using e(2) len by (simp add: list_all2_conv_all_nth)
  have part: "concat (chunks BATCH_EMBEDDING_SIZE ?P) = ?P
      \<and> (\<forall>c \<in> set (chunks BATCH_EMBEDDING_SIZE ?P). c \<noteq> [] \<and> length c \<le> BATCH_EMBEDDING_SIZE)"
    by (rule chunks_partition) (simp add: BATCH_EMBEDDING_SIZE_def)
  have filt: "map pd_page_info ?P = filter retained pages"
    by (simp add: prepare_pages_filter comp_def)
  from e(1) e(3) len nth part filt show ?thesis by blast
qed

theorem batches_aligned_witness:
  "fst (embed_batches (example_env [] mixed_pages True (\<lambda>r. True))
          (prepare_pages (doc_of mixed_pages) mixed_pages []) 0 [] empty_world)
     = Inr [[50], [51]]
   \<and> embed_calls (trace (snd (embed_batches (example_env [] mixed_pages True (\<lambda>r. True))
          (prepare_pages (doc_of mixed_pages) mixed_pages []) 0 [] empty_world)))
     = [[replicate 50 CHR ''a'', replicate 51 CHR ''a'']]
   \<and> map pd_page_info (prepare_pages (doc_of mixed_pages) mixed_pages [])
     = [page_of 0 50, page_of 2 51]
   \<and> map length (embed_calls (trace (snd (embed_batches (example_env [] [] True (\<lambda>r. True))
          (prepare_pages (doc_of []) (replicate 12 (page_of 0 50)) []) 0 [] empty_world))))
     = [10, 2]"
proof -
  define env where "env = example_env [] mixed_pages True (\<lambda>r. True)"
  define env2 where "env2 = example_env [] [] True (\<lambda>r. True)"
  define corr :: "string \<Rightarrow> vector \<Rightarrow> bool" where "corr = (\<lambda>t v. v = [real (length t)])"
  define P where "P = prepare_pages (doc_of mixed_pages) mixed_pages []"
  define Q where "Q = prepare_pages (doc_of []) (replicate 12 (page_of 0 50)) []"
  have prov: "\<And>w ts. \<exists>vs. embeddings_create env w ts = Inr vs \<and> list_all2 corr ts vs"
    by (simp add: env_def example_env_def corr_def list_all2_conv_all_nth)
  have prov2: "\<And>w ts. \<exists>vs. embeddings_create env2 w ts = Inr vs \<and> list_all2 corr ts vs"
    by (simp add: env2_def example_env_def corr_def list_all2_conv_all_nth)
  have r: "retained (page_of 0 50)" "\<not> retained (page_of 1 49)" "retained (page_of 2 51)"
    by (simp_all add: retained_def page_of_def get_default_def strip_replicate_a)
  have Pc: "map pd_content P = [replicate 50 CHR ''a'', replicate 51 CHR ''a'']"
    by (simp add: P_def prepare_pages_filter mixed_pages_def r)
       (simp add: page_of_def get_default_def)
  then obtain p0 p2 where P: "P = [p0, p2]" "pd_content p0 = replicate 50 CHR ''a''"
      "pd_content p2 = replicate 51 CHR ''a''"
    by (cases P; cases "tl P"; cases "tl (tl P)") auto
  have ch: "chunks BATCH_EMBEDDING_SIZE [p0, p2] = [[p0, p2]]"
    by (subst chunks.simps) (simp add: BATCH_EMBEDDING_SIZE_def)
  from batches_aligned [of env corr "doc_of mixed_pages" mixed_pages empty_world, OF prov]
  obtain all_embeddings w' where e:
      "embed_batches env P 0 [] empty_world = (Inr all_embeddings, w')"
      "length all_embeddings = length P"
      "\<forall>i < length all_embeddings. corr (clean_text (pd_content (P ! i))) (all_embeddings ! i)"
      "embed_calls (trace w') = embed_calls (trace empty_world)
        @ map (map (\<lambda>p. clean_text (pd_content p))) (chunks BATCH_EMBEDDING_SIZE P)"
      "map pd_page_info P = filter retained mixed_pages"
    unfolding P_def by blast
  have "all_embeddings ! 0 = [50]" "all_embeddings ! 1 = [51]"
    using e(2) e(3) P by (simp_all add: corr_def clean_replicate_a)
  then have 1: "all_embeddings = [[50], [51]]"
    using e(2) P(1) by (cases all_embeddings; cases "tl all_embeddings") auto
  have 2: "embed_calls (trace w') = [[replicate 50 CHR ''a'', replicate 51 CHR ''a'']]"
    using e(4) P by (simp add: ch clean_replicate_a empty_world_def)
  have 3: "map pd_page_info P = [page_of 0 50, page_of 2 51]"
    using e(5) r by (simp add: mixed_pages_def)
  have Qc: "Q = replicate 12 (hd Q)" "pd_content (hd Q) = replicate 50 CHR ''a''"
    using r(1)
    by (simp_all add: Q_def prepare_pages_filter map_replicate_const)
       (simp_all add: page_of_def get_default_def)
  have chq: "map length (chunks BATCH_EMBEDDING_SIZE (replicate 12 (hd Q))) = [10, 2]"
    by (subst chunks.simps, simp add: BATCH_EMBEDDING_SIZE_def)
       (subst chunks.simps, simp)
  from batches_aligned [of env2 corr "doc_of []" "replicate 12 (page_of 0 50)" empty_world, OF prov2]
  obtain w'' where f:
      "embed_calls (trace (snd (embed_batches env2 Q 0 [] empty_world)))
         = embed_calls (trace empty_world)
        @ map (map (\<lambda>p. clean_text (pd_content p))) (chunks BATCH_EMBEDDING_SIZE Q)"
    unfolding Q_def by force
  have "map length (embed_calls (trace (snd (embed_batches env2 Q 0 [] empty_world))))
      = map length (chunks BATCH_EMBEDDING_SIZE Q)"
    by (subst f) (simp add: empty_world_def comp_def)
  also have "\<dots> = [10, 2]" using Qc(1) chq by simp
  finally have 4: "map length (embed_calls (trace (snd (embed_batches env2 Q 0 [] empty_world))))
      = [10, 2]" .
  from e(1) 1 2 3 4 show ?thesis
    unfolding P_def Q_def env_def env2_def by simp
qed

section \<open>Run Coordinator: new documents and work items\<close>

lemma check_document_exists_effect:
  assumes "check_document_exists env title date w = (found, w1)"
  shows "w1 = emit (Select title date) w"
  using assms by (auto simp: check_document_exists_def Let_def split: option.splits)

lemma oracle_answers_length [simp]: "length (oracle_answers env df w) = length df"
  by (induction df arbitrary: w) (auto split: prod.splits)

lemma scan_rows_effect:
  "scan_rows env df st new_docs w = (st', new_docs', w') \<Longrightarrow>
     cs_new_documents st'
       = cs_new_documents st + int (length (filter Not (oracle_answers env df w)))
     \<and> new_docs' = new_docs
         @ concat (map (\<lambda>(r, found). if found then [] else expand r)
                    (zip df (oracle_answers env df w)))
     \<and> selects (trace w') = selects (trace w) @ map (\<lambda>r. (a_title r, a_date r)) df
     \<and> downloads (trace w') = downloads (trace w)
     \<and> table w' = table w \<and> files w' = files w
     \<and> cs_processed st' = cs_processed st \<and> cs_failed st' = cs_failed st"
proof (induction df arbitrary: st new_docs w)
  case Nil
  then show ?case by simp
next
  case (Cons r df)
  obtain found w1 where c: "check_document_exists env (a_title r) (a_date r) w = (found, w1)"
    by (cases "check_document_exists env (a_title r) (a_date r) w")
  have w1: "w1 = emit (Select (a_title r) (a_date r)) w"
    by (rule check_document_exists_effect [OF c])
  show ?case
  proof (cases found)
    case True
    with Cons.prems c have "scan_rows env df st new_docs w1 = (st', new_docs', w')"
      by simp
    from Cons.IH [OF this] c True w1 show ?thesis by simp
  next
    case False
    with Cons.prems c have "scan_rows env df (st\<lparr>cs_new_documents := cs_new_documents st + 1\<rparr>)
        (new_docs @ expand r) w1 = (st', new_docs', w')"
      by (simp add: Let_def expand_def)
    from Cons.IH [OF this] c False w1 show ?thesis by simp
  qed
qed

lemma process_docs_effect:
  "process_docs env new_docs st w = (st', w') \<Longrightarrow>
     cs_processed st' + cs_failed st' = cs_processed st + cs_failed st + int (length new_docs)
     \<and> cs_processed st \<le> cs_processed st' \<and> cs_failed st \<le> cs_failed st'
     \<and> cs_new_documents st' = cs_new_documents st
     \<and> downloads (trace w') = downloads (trace w)
         @ map (\<lambda>(date, title, doc_type, pdf_url). pdf_url) new_docs
     \<and> selects (trace w') = selects (trace w)
     \<and> length (table w) \<le> length (table w')"
proof (induction new_docs arbitrary: st w)
  case Nil
  then show ?case by simp
next
  case (Cons item new_docs)
  obtain date title doc_type pdf_url where item: "item = (date, title, doc_type, pdf_url)"
    by (cases item)
  obtain success w1 where p: "process_new_document env date title doc_type pdf_url w = (success, w1)"
    by (cases "process_new_document env date title doc_type pdf_url w")
  note e = process_new_document_effect [OF p]
  define st1 where "st1 = (if success then st\<lparr>cs_processed := cs_processed st + 1\<rparr>
                      else st\<lparr>cs_failed := cs_failed st + 1\<rparr>)"
  from Cons.prems item p have "process_docs env new_docs st1 (emit (Sleep 2) w1) = (st', w')"
    by (simp add: Let_def st1_def)
  from Cons.IH [OF this] e(2-4) item show ?case
    by (cases success) (auto simp: st1_def)
qed



section \<open>A second run\<close>

lemma scrape_effect:
  assumes "scrape_bnm_announcements env w = (df, w')"
  shows "table w' = table w" "files w' = files w"
  using assms
  by (auto simp: scrape_bnm_announcements_def scrape_body_def Let_def
           split: sum.splits option.splits prod.splits)

lemma stored_emit [simp]: "stored (emit e w) r = stored w r"
  by (simp add: stored_def)

lemma oracle_answers_healthy:
  assumes "\<And>w title date. select_exec env w title date = None"
  shows "oracle_answers env df w = map (stored w) df"
proof (induction df arbitrary: w)
  case Nil
  show ?case by simp
next
  case (Cons r df)
  have "check_document_exists env (a_title r) (a_date r) w
      = (stored w r, emit (Select (a_title r) (a_date r)) w)"
    by (simp add: check_document_exists_def Let_def assms select_data_def stored_def
          take1_filter_nonempty filter_empty_conv)
  then show ?case using Cons.IH by simp
qed

lemma stored_cong: "table w = table w' \<Longrightarrow> stored w r = stored w' r"
  by (simp add: stored_def)

lemmas run_defs =
  run_daily_scrape_def scrape_bnm_announcements_def scrape_body_def site_of_def parse_row_def
  get_text_def strip_def py_isspace_def normalize_href_def startswith_def SITE_ORIGIN_def
  check_document_exists_def select_data_def initial_cron_status_def

lemma listing_example:
  "fst (scrape_bnm_announcements (example_env hrefs pages up ok) w)
     = [announcement_of (map normalize_href hrefs)]"
  by (simp add: scrape_bnm_announcements_def scrape_body_def site_of_def parse_row_def
        get_text_def strip_def py_isspace_def example_env_def announcement_of_def Let_def)

text \<open>
  C6, as the specification states it, fails: an announcement of which the storage holds no
  page after the first run is new again in the second run.  Here the only link of the
  announcement does not end in \<open>.pdf\<close>, so the first run writes nothing, and the second
  run counts one new document.
\<close>

theorem second_run_counterexample:
  "cs_new_documents
     (fst (run_daily_scrape (example_env [''/documents/notice.html''] three_pages True (\<lambda>r. True))
        (fst (run_daily_scrape
               (example_env [''/documents/notice.html''] three_pages True (\<lambda>r. True))
               initial_cron_status empty_world))
        (snd (run_daily_scrape
               (example_env [''/documents/notice.html''] three_pages True (\<lambda>r. True))
               initial_cron_status empty_world)))) = 1"
  by (simp add: run_defs eval_defs expand_def)

text \<open>
  C6, amended.  Two runs against the same catalog, the second with existence queries that
  do not fail, on the storage as the first run left it: the second run counts as new
  exactly the announcements of which the storage holds no page after the first run.  When
  the storage holds a page of every announcement of the catalog, the second run ends with
  \<open>new_documents = 0\<close>, \<open>processed = 0\<close> and \<open>failed = 0\<close> and writes nothing.
\<close>

theorem second_run:
  assumes first: "run_daily_scrape env1 st0 w0 = (st1, w1)"
      and catalog1: "\<And>w. fst (scrape_bnm_announcements env1 w) = df"
      and catalog2: "\<And>w. fst (scrape_bnm_announcements env2 w) = df"
      and healthy: "\<And>w title date. select_exec env2 w title date = None"
      and second: "run_daily_scrape env2 st1 w1 = (st2, w2)"
  shows "cs_new_documents st2 = int (length (filter (\<lambda>r. \<not> stored w1 r) df))
     \<and> ((\<forall>r \<in> set df. stored w1 r)
          \<longrightarrow> cs_new_documents st2 = 0 \<and> cs_processed st2 = 0 \<and> cs_failed st2 = 0
              \<and> table w2 = table w1)"
proof -
  define wa where "wa = emit Now w1"
  define sta where "sta = st1\<lparr>cs_status := ''running'', cs_last_run := Some (clock env2 wa),
      cs_new_documents := 0, cs_processed := 0, cs_failed := 0\<rparr>"
  obtain wb where sc: "scrape_bnm_announcements env2 wa = (df, wb)"
    using catalog2 [of wa] by (cases "scrape_bnm_announcements env2 wa") simp
  have tb: "table wb = table w1"
    using scrape_effect(1) [OF sc] by (simp add: wa_def)
  show ?thesis
  proof (cases "df = []")
    case True
    with second sc have "st2 = sta\<lparr>cs_status := ''completed'',
        cs_message := ''No data scraped from BNM website''\<rparr>" "w2 = wb"
      by (auto simp: run_daily_scrape_def now_iso_def Let_def wa_def sta_def)
    with True tb show ?thesis by (simp add: sta_def)
  next
    case False
    obtain stb new_docs wc where sr: "scan_rows env2 df sta [] wb = (stb, new_docs, wc)"
      by (cases "scan_rows env2 df sta [] wb") auto
    obtain stc wd where pd: "process_docs env2 new_docs stb wc = (stc, wd)"
      by (cases "process_docs env2 new_docs stb wc")
    from second sc False sr pd have res: "w2 = wd"
        "cs_new_documents st2 = cs_new_documents stc" "cs_processed st2 = cs_processed stc"
        "cs_failed st2 = cs_failed stc"
      by (auto simp: run_daily_scrape_def now_iso_def Let_def wa_def sta_def)
    note s = scan_rows_effect [OF sr]
    note p = process_docs_effect [OF pd]
    have oa: "oracle_answers env2 df wb = map (stored w1) df"
      using oracle_answers_healthy [of env2 df wb, OF healthy] stored_cong [OF tb]
      by simp
    have cnt: "length (filter Not (map (stored w1) df))
        = length (filter (\<lambda>r. \<not> stored w1 r) df)"
      by (simp add: filter_map comp_def)
    have new: "cs_new_documents st2 = int (length (filter (\<lambda>r. \<not> stored w1 r) df))"
      using s p res oa cnt by (simp add: sta_def)
    have all: "cs_new_documents st2 = 0 \<and> cs_processed st2 = 0 \<and> cs_failed st2 = 0
        \<and> table w2 = table w1" if st: "\<forall>r \<in> set df. stored w1 r"
    proof -
      have nd: "new_docs = []"
      proof -
        have "concat (map (\<lambda>(r, found). if found then [] else expand r)
            (zip df (map (stored w1) df))) = []"
          using st by (induction df) auto
        with s oa show ?thesis by simp
      qed
      with pd have "stc = stb" "wd = wc" by simp_all
      moreover have "filter (\<lambda>r. \<not> stored w1 r) df = []"
        using st by (simp add: filter_empty_conv)
      ultimately show ?thesis using s res tb new by (simp add: sta_def)
    qed
    from new all show ?thesis by blast
  qed
qed

theorem second_run_witness:
  "cs_processed (fst (run_daily_scrape
       (example_env [''/documents/a.pdf''] three_pages True (\<lambda>r. True))
       initial_cron_status empty_world)) = 1
   \<and> cs_new_documents
     (fst (run_daily_scrape (example_env [''/documents/a.pdf''] three_pages True (\<lambda>r. True))
        (fst (run_daily_scrape
               (example_env [''/documents/a.pdf''] three_pages True (\<lambda>r. True))
               initial_cron_status empty_world))
        (snd (run_daily_scrape
               (example_env [''/documents/a.pdf''] three_pages True (\<lambda>r. True))
               initial_cron_status empty_world)))) = 0
   \<and> cs_processed
     (fst (run_daily_scrape (example_env [''/documents/a.pdf''] three_pages True (\<lambda>r. True))
        (fst (run_daily_scrape
               (example_env [''/documents/a.pdf''] three_pages True (\<lambda>r. True))
               initial_cron_status empty_world))
        (snd (run_daily_scrape
               (example_env [''/documents/a.pdf''] three_pages True (\<lambda>r. True))
               initial_cron_status empty_world)))) = 0"
proof -
  define env where "env = example_env [''/documents/a.pdf''] three_pages True (\<lambda>r. True)"
  define df where "df = [announcement_of (map normalize_href [''/documents/a.pdf''])]"
  define R1 where "R1 = run_daily_scrape env initial_cron_status empty_world"
  define R2 where "R2 = run_daily_scrape env (fst R1) (snd R1)"
  have first: "run_daily_scrape env initial_cron_status empty_world = (fst R1, snd R1)"
    by (simp add: R1_def)
  have second: "run_daily_scrape env (fst R1) (snd R1) = (fst R2, snd R2)"
    by (simp add: R2_def)
  have catalog: "\<And>w. fst (scrape_bnm_announcements env w) = df"
    unfolding env_def df_def by (rule listing_example)
  have healthy: "\<And>w title date. select_exec env w title date = None"
    by (simp add: env_def example_env_def)
  have p1: "cs_processed (fst R1) = 1"
    by (simp add: R1_def env_def run_defs eval_defs expand_def)
  have t1: "map (\<lambda>x. (r_title x, r_date x)) (table (snd R1))
      = [(''Policy Document'', ''1 Jan 2024''), (''Policy Document'', ''1 Jan 2024''),
         (''Policy Document'', ''1 Jan 2024'')]"
    by (simp add: R1_def env_def run_defs eval_defs expand_def make_row_def)
  have "(''Policy Document'', ''1 Jan 2024'')
      \<in> set (map (\<lambda>x. (r_title x, r_date x)) (table (snd R1)))"
    unfolding t1 by simp
  then have st: "\<forall>r \<in> set df. stored (snd R1) r"
    by (auto simp: df_def stored_def announcement_of_def)
  from second_run [OF first catalog catalog healthy second] st p1
  have "cs_processed (fst R1) = 1 \<and> cs_new_documents (fst R2) = 0 \<and> cs_processed (fst R2) = 0"
    by simp
  then show ?thesis unfolding R2_def R1_def env_def .
qed

section \<open>Cleanup of the downloaded payload\<close>

text \<open>
  On every path of \<open>process_new_document\<close> that returns from the \<open>try\<close> block after a
  successful download, the payload is unlinked once and is gone.
\<close>

lemma cleanup_on_return:
  assumes "process_body env date title doc_type pdf_url w = (Inr b, w')"
      and "download_pdf env pdf_url w = (Some p, w1)"
  shows "unlinks (trace w') = unlinks (trace w) @ [p] \<and> files w' = files w1 - {p}"
  using assms(1)
proof (cases rule: process_body_cases)
  case no_download
  with assms(2) show ?thesis by simp
next
  case (no_ocr p' w1' od w2)
  with assms(2) have eq: "p' = p" "w1' = w1" by simp_all
  note d = download_pdf_effect [OF assms(2)]
  note e = extract_effect [OF no_ocr(2) [unfolded eq]]
  have "p \<in> files w2" using d(6) [of p] e(1) by simp
  note u = unlink_return_ok [OF this no_ocr(4) [unfolded eq]]
  show ?thesis using d(6) [of p] e u by simp
next
  case (no_pages p' w1' d w2)
  with assms(2) have eq: "p' = p" "w1' = w1" by simp_all
  note dl = download_pdf_effect [OF assms(2)]
  note e = extract_effect [OF no_pages(2) [unfolded eq]]
  have "p \<in> files w2" using dl(6) [of p] e(1) by simp
  note u = unlink_return_ok [OF this no_pages(4) [unfolded eq]]
  show ?thesis using dl(6) [of p] e u by simp
next
  case (embed_raise p' w1' d w2 e)
  then show ?thesis by simp
next
  case (stored p' w1' d w2 all_embeddings w3 n w4)
  with assms(2) have eq: "p' = p" "w1' = w1" by simp_all
  note dl = download_pdf_effect [OF assms(2)]
  note ex = extract_effect [OF stored(2) [unfolded eq]]
  note eb = embed_batches_frame [OF stored(4)]
  note st = store_document_pages_effect [OF stored(5)]
  have "p \<in> files w4" using dl(6) [of p] ex(1) eb st(1) by simp
  note u = unlink_return_ok [OF this stored(6) [unfolded eq]]
  show ?thesis using dl(6) [of p] ex eb st u by simp
qed

text \<open>
  C1 says that the Document Processor deletes the downloaded payload exactly once on every
  terminal path.  The path through the exception handler does not: here the download
  succeeds, the OCR returns one page of 50 characters, and the embedding provider raises.
  The processor prints the error and returns \<open>False\<close>; the payload has not been unlinked and
  is still in the download directory.
\<close>

theorem payload_left_behind:
  "fst (download_pdf (example_env [] [page_of 0 50] False (\<lambda>r. True))
          ''https://www.bnm.gov.my/documents/a.pdf'' empty_world)
     = Some ''temp_bnm_downloads/a.pdf''
   \<and> fst (process_new_document (example_env [] [page_of 0 50] False (\<lambda>r. True))
          ''1 Jan 2024'' ''Policy Document'' ''Notice''
          ''https://www.bnm.gov.my/documents/a.pdf'' empty_world) = False
   \<and> files (snd (process_new_document (example_env [] [page_of 0 50] False (\<lambda>r. True))
          ''1 Jan 2024'' ''Policy Document'' ''Notice''
          ''https://www.bnm.gov.my/documents/a.pdf'' empty_world))
     = {''temp_bnm_downloads/a.pdf''}
   \<and> unlinks (trace (snd (process_new_document (example_env [] [page_of 0 50] False (\<lambda>r. True))
          ''1 Jan 2024'' ''Policy Document'' ''Notice''
          ''https://www.bnm.gov.my/documents/a.pdf'' empty_world))) = []
   \<and> prints (trace (snd (process_new_document (example_env [] [page_of 0 50] False (\<lambda>r. True))
          ''1 Jan 2024'' ''Policy Document'' ''Notice''
          ''https://www.bnm.gov.my/documents/a.pdf'' empty_world)))
     = [''[ERROR] Processing failed: Connection error.'']"
  by (simp add: eval_defs)

section \<open>Failures of the collaborators\<close>






end
